theory Spec2Isabelle
  imports Main "HOL-Library.Multiset"
begin

section \<open>The discovered-token store (services/tokenStoreService.ts)\<close>

text \<open>
  \<^verbatim>\<open>const MAX_STORE_SIZE = 200;\<close> and \<^verbatim>\<open>const MIN_STORE_THRESHOLD = 10;\<close>
\<close>

definition MAX_STORE_SIZE :: nat where
  "MAX_STORE_SIZE = 200"

definition MIN_STORE_THRESHOLD :: nat where
  "MIN_STORE_THRESHOLD = 10"

text \<open>
  The two private fields of class \<^verbatim>\<open>TokenStoreService\<close>. The cursor starts at 0, is only
  ever incremented or reset to 0, and so is a natural number.
\<close>

record TokenStoreService =
  contractAddresses :: "string list"
  currentIndex :: nat

definition new_TokenStoreService :: TokenStoreService where
  "new_TokenStoreService = \<lparr>contractAddresses = [], currentIndex = 0\<rparr>"

text \<open>
  What \<^verbatim>\<open>fs.readFile\<close> followed by \<^verbatim>\<open>JSON.parse\<close> can give \<^verbatim>\<open>loadPersistedAddresses\<close>:
  the file is missing, reading or parsing throws something else, the document parses
  but is not an array of strings, or it is an array of strings.
\<close>

datatype persisted_file =
    ENOENT
  | ReadOrParseError
  | NotAStringArray
  | StringArray "string list"

text \<open>
  \<^verbatim>\<open>loadPersistedAddresses\<close>: only an array of strings replaces the store, cut to the first
  \<open>cap\<close> entries (\<^verbatim>\<open>parsedAddresses.slice(0, MAX_STORE_SIZE)\<close>); every other outcome is
  logged and leaves the store as it is. The cursor is not touched.
\<close>

definition loadPersistedAddresses_with ::
  "nat \<Rightarrow> persisted_file \<Rightarrow> TokenStoreService \<Rightarrow> TokenStoreService" where
  "loadPersistedAddresses_with cap f s =
     (case f of
        StringArray parsedAddresses \<Rightarrow> s\<lparr>contractAddresses := take cap parsedAddresses\<rparr>
      | _ \<Rightarrow> s)"

definition loadPersistedAddresses ::
  "persisted_file \<Rightarrow> TokenStoreService \<Rightarrow> TokenStoreService" where
  "loadPersistedAddresses = loadPersistedAddresses_with MAX_STORE_SIZE"

text \<open>
  One turn of the \<^verbatim>\<open>for (const addr of newAddresses)\<close> loop of \<^verbatim>\<open>addContractAddresses\<close>,
  on the pair of the array and \<^verbatim>\<open>addedCount\<close>. \<^verbatim>\<open>shift()\<close> drops the first element and does
  nothing on an empty array, as \<^term>\<open>tl\<close> does.
\<close>

definition add_address :: "nat \<Rightarrow> string list \<times> nat \<Rightarrow> string \<Rightarrow> string list \<times> nat" where
  "add_address cap acc addr =
     (let (xs, addedCount) = acc in
      if addr \<notin> set xs then
        (let xs' = (if length xs \<ge> cap then tl xs else xs)
         in (xs' @ [addr], addedCount + 1))
      else (xs, addedCount))"

text \<open>
  \<^verbatim>\<open>addContractAddresses(newAddresses)\<close>. The second component of the result says whether
  \<^verbatim>\<open>persistAddresses()\<close> was started (\<^verbatim>\<open>addedCount > 0\<close>).
\<close>

definition addContractAddresses_with ::
  "nat \<Rightarrow> string list \<Rightarrow> TokenStoreService \<Rightarrow> TokenStoreService \<times> bool" where
  "addContractAddresses_with cap newAddresses s =
     (let (xs, addedCount) = foldl (add_address cap) (contractAddresses s, 0) newAddresses
      in (s\<lparr>contractAddresses := xs\<rparr>, addedCount > 0))"

definition addContractAddresses ::
  "string list \<Rightarrow> TokenStoreService \<Rightarrow> TokenStoreService \<times> bool" where
  "addContractAddresses = addContractAddresses_with MAX_STORE_SIZE"

text \<open>
  \<^verbatim>\<open>getNextContractAddress()\<close>: \<^verbatim>\<open>null\<close> (here \<^term>\<open>None\<close>) on an empty store, with the
  cursor left alone; otherwise the cursor is reset to 0 when it is at or past the end,
  the entry under it is read and the cursor is incremented.
\<close>

definition getNextContractAddress ::
  "TokenStoreService \<Rightarrow> string option \<times> TokenStoreService" where
  "getNextContractAddress s =
     (if length (contractAddresses s) = 0 then (None, s)
      else
        (let i = (if currentIndex s \<ge> length (contractAddresses s) then 0 else currentIndex s)
         in (Some (contractAddresses s ! i), s\<lparr>currentIndex := i + 1\<rparr>)))"

definition getStoreSize :: "TokenStoreService \<Rightarrow> nat" where
  "getStoreSize s = length (contractAddresses s)"

definition getMinStoreThreshold :: "TokenStoreService \<Rightarrow> nat" where
  "getMinStoreThreshold s = MIN_STORE_THRESHOLD"

text \<open>\<open>n\<close> calls of \<^verbatim>\<open>getNextContractAddress\<close> in a row, with the values they return.\<close>

fun next_calls :: "nat \<Rightarrow> TokenStoreService \<Rightarrow> string option list \<times> TokenStoreService" where
  "next_calls 0 s = ([], s)"
| "next_calls (Suc n) s =
     (let (a, s') = getNextContractAddress s;
          (as, s'') = next_calls n s'
      in (a # as, s''))"

text \<open>
  The calls that can reach a store: the load started by the constructor (whenever its
  file read completes), \<^verbatim>\<open>addContractAddresses\<close> and \<^verbatim>\<open>getNextContractAddress\<close>.
\<close>

datatype store_call =
    Load persisted_file
  | Add "string list"
  | Next

fun store_step :: "nat \<Rightarrow> TokenStoreService \<Rightarrow> store_call \<Rightarrow> TokenStoreService" where
  "store_step cap s (Load f) = loadPersistedAddresses_with cap f s"
| "store_step cap s (Add newAddresses) = fst (addContractAddresses_with cap newAddresses s)"
| "store_step cap s Next = snd (getNextContractAddress s)"

definition store_run :: "store_call list \<Rightarrow> TokenStoreService" where
  "store_run calls = foldl (store_step MAX_STORE_SIZE) new_TokenStoreService calls"

text \<open>A loaded snapshot without repeated entries; every other call qualifies.\<close>

fun load_distinct :: "store_call \<Rightarrow> bool" where
  "load_distinct (Load (StringArray xs)) = distinct xs"
| "load_distinct _ = True"

section \<open>The outside world\<close>

text \<open>
  Everything the process talks to is written into one record: what each HTTP endpoint
  will answer to the successive requests, what is on disk, and what the random source
  and the question service will give. Each answer is used once, in order; an endpoint
  with no answer left rejects the request (a network error), and a file write with no
  result left succeeds. The record also keeps what the process did to the world: every
  request sent, every log line, how often \<^verbatim>\<open>persistTokens\<close> was called and how often the
  credential document was written.
\<close>

datatype level = INFO | WARN | ERR | FATAL

text \<open>
  A \<^verbatim>\<open>node-fetch\<close> response as far as the code reads it: \<^verbatim>\<open>r.ok\<close>, \<^verbatim>\<open>r.status\<close>,
  \<^verbatim>\<open>await r.json()\<close> cast to the interface the caller names (\<^term>\<open>None\<close> when the promise
  rejects or the body is no such object) and \<^verbatim>\<open>await r.text()\<close> (\<^term>\<open>None\<close> when it rejects).
\<close>

record 'a response =
  ok :: bool
  status :: nat
  json :: "'a option"
  body_text :: "string option"

datatype 'a fetched = Rejected | Resolved "'a response"

text \<open>\<^verbatim>\<open>interface OAuthResp\<close>; \<^verbatim>\<open>expires_in\<close> is never read.\<close>

record OAuthResp =
  access_token :: "string option"
  refresh_token :: "string option"
  message :: "string option"

text \<open>\<^verbatim>\<open>interface ValidateResp\<close>, of which only \<^verbatim>\<open>user_id\<close> is read.\<close>

record ValidateResp =
  user_id :: string

text \<open>\<^verbatim>\<open>twitchBotConfigSchema\<close>: the two optional fields may be absent.\<close>

record TwitchBotConfig =
  clientId :: string
  clientSecret :: string
  refreshToken :: string
  oauthToken :: "string option"
  channelUserId :: string
  botUserId :: "string option"

text \<open>What can be thrown inside the process.\<close>

datatype error =
    FetchError
  | BodyError
  | TokenRefreshFailed nat
  | TokenStillInvalid string
  | QuestionError

text \<open>
  The market-data answers as \<^verbatim>\<open>utils/cryptoApi.ts\<close> reads them. Of a CoinGecko answer only
  \<^verbatim>\<open>data.coins\<close> and each \<^verbatim>\<open>item.symbol\<close> are read (\<^term>\<open>None\<close>: not there). A DexScreener
  answer is an array of boosts, or an object holding one under \<^verbatim>\<open>boosts\<close>, or something
  else; of a boost only \<^verbatim>\<open>tokenAddress\<close> is read.
\<close>

record CoinGeckoTrendingResponse =
  coins :: "string option list option"

datatype DexScreenerTopBoostsResponse =
    BoostArray "string option list"
  | BoostsObject "string option list"
  | OtherShape

text \<open>\<^verbatim>\<open>type TokenIdentifierType = "ticker" | "address"\<close> and the \<^verbatim>\<open>tokenInfo\<close> object.\<close>

datatype TokenIdentifierType = ticker | address

record token_info =
  token_identifier :: string
  identifier_type :: TokenIdentifierType

text \<open>The requests the process sends, with the parts of them that vary.\<close>

datatype request =
    TokenPost string string string
      \<comment> \<open>\<^verbatim>\<open>POST id.twitch.tv/oauth2/token\<close>: client id, client secret, refresh token\<close>
  | ValidateGet string
      \<comment> \<open>\<^verbatim>\<open>GET id.twitch.tv/oauth2/validate\<close>: the OAuth token\<close>
  | ChatPost string string string string string
      \<comment> \<open>\<^verbatim>\<open>POST api.twitch.tv/helix/chat/messages\<close>: bearer token, client id,
          \<^verbatim>\<open>broadcaster_id\<close>, \<^verbatim>\<open>sender_id\<close>, \<^verbatim>\<open>message\<close>\<close>
  | CoinGeckoGet
      \<comment> \<open>\<^verbatim>\<open>GET .../search/trending\<close>\<close>
  | DexScreenerGet
      \<comment> \<open>\<^verbatim>\<open>GET api.dexscreener.com/token-boosts/top/v1\<close>\<close>

text \<open>
  \<^verbatim>\<open>chatbot.config.json\<close> once read and parsed is an object keyed by bot name under
  \<^verbatim>\<open>twitch\<close>; \<^term>\<open>None\<close> stands for a file that cannot be read or parsed, or has no
  \<^verbatim>\<open>twitch\<close> object (each makes \<^verbatim>\<open>persistTokens\<close> throw into its own \<^verbatim>\<open>catch\<close>).
\<close>

type_synonym config_document = "(string \<times> TwitchBotConfig) list"

record world =
  token_endpoint :: "OAuthResp fetched list"
  validate_endpoint :: "ValidateResp fetched list"
  chat_endpoint :: "unit fetched list"
  coingecko_endpoint :: "CoinGeckoTrendingResponse fetched list"
  dexscreener_endpoint :: "DexScreenerTopBoostsResponse fetched list"
  random_source :: "nat list"
  question_service :: "(token_info option \<Rightarrow> error + string option) list"
  config_file :: "config_document option"
  store_file :: persisted_file
  write_results :: "bool list"
  requests :: "request list"
  logged :: "(level \<times> string) list"
  persist_calls :: nat
  file_writes :: nat

definition log_line :: "level \<Rightarrow> string \<Rightarrow> world \<Rightarrow> world" where
  "log_line l m w = w\<lparr>logged := logged w @ [(l, m)]\<rparr>"

text \<open>One \<^verbatim>\<open>fetch\<close> to each of the three endpoints: the request is recorded, the next answer taken.\<close>

definition fetch_token :: "request \<Rightarrow> world \<Rightarrow> OAuthResp fetched \<times> world" where
  "fetch_token rq w =
     (case token_endpoint w of
        [] \<Rightarrow> (Rejected, w\<lparr>requests := requests w @ [rq]\<rparr>)
      | r # rs \<Rightarrow> (r, w\<lparr>token_endpoint := rs, requests := requests w @ [rq]\<rparr>))"

definition fetch_validate :: "request \<Rightarrow> world \<Rightarrow> ValidateResp fetched \<times> world" where
  "fetch_validate rq w =
     (case validate_endpoint w of
        [] \<Rightarrow> (Rejected, w\<lparr>requests := requests w @ [rq]\<rparr>)
      | r # rs \<Rightarrow> (r, w\<lparr>validate_endpoint := rs, requests := requests w @ [rq]\<rparr>))"

definition fetch_chat :: "request \<Rightarrow> world \<Rightarrow> unit fetched \<times> world" where
  "fetch_chat rq w =
     (case chat_endpoint w of
        [] \<Rightarrow> (Rejected, w\<lparr>requests := requests w @ [rq]\<rparr>)
      | r # rs \<Rightarrow> (r, w\<lparr>chat_endpoint := rs, requests := requests w @ [rq]\<rparr>))"

text \<open>
  \<^verbatim>\<open>fs.writeFile(CONFIG_PATH, ...)\<close>: the call is counted; it succeeds unless the next
  entry of \<^term>\<open>write_results\<close> says otherwise, and only then is the document on disk replaced.
\<close>

definition write_config :: "config_document \<Rightarrow> world \<Rightarrow> bool \<times> world" where
  "write_config doc w =
     (let w1 = w\<lparr>file_writes := file_writes w + 1\<rparr> in
      case write_results w1 of
        [] \<Rightarrow> (True, w1\<lparr>config_file := Some doc\<rparr>)
      | b # bs \<Rightarrow>
          (b, if b then w1\<lparr>write_results := bs, config_file := Some doc\<rparr>
              else w1\<lparr>write_results := bs\<rparr>))"

section \<open>The Twitch client (utils/twitchAuth.ts)\<close>

record TwitchClient =
  cfg :: TwitchBotConfig
  token :: string
  userId :: string
  botIdentifier :: string

text \<open>JavaScript truthiness of an optional string: present and not empty.\<close>

fun truthy :: "string option \<Rightarrow> bool" where
  "truthy None = False"
| "truthy (Some s) = (s \<noteq> [])"

text \<open>
  The constructor, after \<^verbatim>\<open>twitchBotConfigSchema.parse\<close> has accepted the configuration.
\<close>

definition new_TwitchClient :: "TwitchBotConfig \<Rightarrow> string \<Rightarrow> TwitchClient" where
  "new_TwitchClient parsed botKey =
     \<lparr>cfg = parsed,
      token = (case oauthToken parsed of Some t \<Rightarrow> t | None \<Rightarrow> []),
      userId = (case botUserId parsed of Some u \<Rightarrow> u | None \<Rightarrow> []),
      botIdentifier = botKey\<rparr>"

text \<open>
  \<^verbatim>\<open>persistTokens\<close>: read and parse the document, overwrite the three fields of this bot's
  entry when the entry exists and carries this client id, write the document back. Whatever
  is thrown on the way is caught and logged, so the method itself never throws.
\<close>

definition update_entry :: "TwitchClient \<Rightarrow> config_document \<Rightarrow> config_document" where
  "update_entry c cfgDisk =
     map (\<lambda>(k, e).
            if k = botIdentifier c \<and> clientId e = clientId (cfg c)
            then (k, e\<lparr>refreshToken := refreshToken (cfg c),
                        oauthToken := Some (token c),
                        botUserId := Some (userId c)\<rparr>)
            else (k, e)) cfgDisk"

definition persistTokens :: "TwitchClient \<Rightarrow> world \<Rightarrow> world" where
  "persistTokens c w =
     (let w0 = w\<lparr>persist_calls := persist_calls w + 1\<rparr> in
      case config_file w0 of
        None \<Rightarrow> log_line WARN ''Failed to persist tokens'' w0
      | Some cfgDisk \<Rightarrow>
          (let (written, w1) = write_config (update_entry c cfgDisk) w0 in
           if written then log_line INFO ''Tokens persisted'' w1
           else log_line WARN ''Failed to persist tokens'' w1))"

text \<open>
  The method \<^verbatim>\<open>refreshToken\<close> (the configuration field has the name already). The \<^verbatim>\<open>try\<close> block throws when \<^verbatim>\<open>fetch\<close> rejects, when the body is not
  JSON, and when \<^verbatim>\<open>!r.ok || !j.access_token\<close>; the \<^verbatim>\<open>catch\<close> logs and throws again.
  Only past that test are the token fields assigned and \<^verbatim>\<open>persistTokens\<close> called.
\<close>

definition refreshToken_call ::
  "TwitchClient \<Rightarrow> world \<Rightarrow> (error + unit) \<times> TwitchClient \<times> world" where
  "refreshToken_call c w =
     (let w1 = log_line INFO ''Refreshing token...'' w;
          (r, w2) = fetch_token
                      (TokenPost (clientId (cfg c)) (clientSecret (cfg c)) (refreshToken (cfg c))) w1;
          checked =
            (case r of
               Rejected \<Rightarrow> Inl FetchError
             | Resolved resp \<Rightarrow>
                 (case json resp of
                    None \<Rightarrow> Inl BodyError
                  | Some j \<Rightarrow>
                      (case access_token j of
                         None \<Rightarrow> Inl (TokenRefreshFailed (status resp))
                       | Some a \<Rightarrow>
                           if \<not> ok resp \<or> a = [] then Inl (TokenRefreshFailed (status resp))
                           else Inr (a, refresh_token j))))
      in case checked of
           Inl e \<Rightarrow> (Inl e, c, log_line ERR ''Token refresh error'' w2)
         | Inr (a, rt) \<Rightarrow>
             (let c1 = c\<lparr>token := a\<rparr>;
                  c2 = (case rt of
                          Some t \<Rightarrow> if t \<noteq> [] then c1\<lparr>cfg := (cfg c1)\<lparr>refreshToken := t\<rparr>\<rparr> else c1
                        | None \<Rightarrow> c1);
                  w3 = log_line INFO ''Token refreshed successfully.'' w2
              in (Inr (), c2, persistTokens c2 w3)))"

text \<open>
  The end of the \<^verbatim>\<open>try\<close> block of \<^verbatim>\<open>validateToken\<close>, reached once \<^verbatim>\<open>this.userId\<close> has been
  assigned: the identifier is compared with the configured one and persisted when they differ.
\<close>

definition validated ::
  "TwitchClient \<Rightarrow> world \<Rightarrow> (error + unit) \<times> TwitchClient \<times> world" where
  "validated c w =
     (let w1 = log_line INFO ''Token validated'' w in
      if botUserId (cfg c) \<noteq> Some (userId c) then
        (let c1 = c\<lparr>cfg := (cfg c)\<lparr>botUserId := Some (userId c)\<rparr>\<rparr>
         in (Inr (), c1, persistTokens c1 w1))
      else (Inr (), c, w1))"

text \<open>The \<^verbatim>\<open>try\<close> block of \<^verbatim>\<open>validateToken\<close>.\<close>

definition validate_try ::
  "TwitchClient \<Rightarrow> world \<Rightarrow> (error + unit) \<times> TwitchClient \<times> world" where
  "validate_try c w =
     (let (r, w1) = fetch_validate (ValidateGet (token c)) w in
      case r of
        Rejected \<Rightarrow> (Inl FetchError, c, w1)
      | Resolved resp \<Rightarrow>
          if \<not> ok resp then
            (case body_text resp of
               None \<Rightarrow> (Inl BodyError, c, w1)
             | Some errorText \<Rightarrow>
                 (let w2 = log_line ERR ''Token validation failed. Attempting refresh.'' w1 in
                  case refreshToken_call c w2 of
                    (Inl e, c1, w3) \<Rightarrow> (Inl e, c1, w3)
                  | (Inr _, c1, w3) \<Rightarrow>
                      (let (r2, w4) = fetch_validate (ValidateGet (token c1)) w3 in
                       case r2 of
                         Rejected \<Rightarrow> (Inl FetchError, c1, w4)
                       | Resolved resp2 \<Rightarrow>
                           if \<not> ok resp2 then
                             (case body_text resp2 of
                                None \<Rightarrow> (Inl BodyError, c1, w4)
                              | Some t \<Rightarrow> (Inl (TokenStillInvalid t), c1, w4))
                           else
                             (case json resp2 of
                                None \<Rightarrow> (Inl BodyError, c1, w4)
                              | Some data2 \<Rightarrow> validated (c1\<lparr>userId := user_id data2\<rparr>) w4))))
          else
            (case json resp of
               None \<Rightarrow> (Inl BodyError, c, w1)
             | Some data \<Rightarrow> validated (c\<lparr>userId := user_id data\<rparr>) w1))"

text \<open>
  \<^verbatim>\<open>validateToken\<close>: with no token, \<^verbatim>\<open>refreshToken\<close> is awaited first, outside the \<^verbatim>\<open>try\<close>,
  so its exception leaves the method directly; the \<^verbatim>\<open>catch\<close> of the \<^verbatim>\<open>try\<close> block logs
  and throws again.
\<close>

definition validateToken ::
  "TwitchClient \<Rightarrow> world \<Rightarrow> (error + unit) \<times> TwitchClient \<times> world" where
  "validateToken c w =
     (let w1 = log_line INFO ''Validating token...'' w in
      case (if token c = []
            then refreshToken_call c (log_line WARN ''No token to validate. Attempting refresh first.'' w1)
            else (Inr (), c, w1)) of
        (Inl e, c1, w2) \<Rightarrow> (Inl e, c1, w2)
      | (Inr _, c1, w2) \<Rightarrow>
          (case validate_try c1 w2 of
             (Inl e, c2, w3) \<Rightarrow> (Inl e, c2, log_line ERR ''Token validation/refresh error'' w3)
           | (Inr _, c2, w3) \<Rightarrow> (Inr (), c2, w3)))"

text \<open>
  \<^verbatim>\<open>sendMessage\<close> from \<^verbatim>\<open>const url\<close> on: one request to the chat endpoint inside a
  \<^verbatim>\<open>try\<close> whose \<^verbatim>\<open>catch\<close> only logs.
\<close>

definition post_message ::
  "string \<Rightarrow> TwitchClient \<Rightarrow> world \<Rightarrow> (error + unit) \<times> TwitchClient \<times> world" where
  "post_message message_text c w =
     (let (r, w1) = fetch_chat
                      (ChatPost (token c) (clientId (cfg c)) (channelUserId (cfg c)) (userId c)
                         message_text) w
      in case r of
           Rejected \<Rightarrow> (Inr (), c, log_line ERR ''sendMessage error'' w1)
         | Resolved resp \<Rightarrow>
             if \<not> ok resp then
               (case body_text resp of
                  None \<Rightarrow> (Inr (), c, log_line ERR ''sendMessage error'' w1)
                | Some errorData \<Rightarrow> (Inr (), c, log_line ERR ''sendMessage failed'' w1))
             else (Inr (), c, log_line INFO ''Message sent'' w1))"

text \<open>
  \<^verbatim>\<open>sendMessage(text)\<close>. With \<^verbatim>\<open>this.userId\<close> empty, \<^verbatim>\<open>validateToken\<close> is awaited first;
  that call stands before the \<^verbatim>\<open>try\<close>, so what it throws leaves \<^verbatim>\<open>sendMessage\<close>.
\<close>

definition sendMessage ::
  "string \<Rightarrow> TwitchClient \<Rightarrow> world \<Rightarrow> (error + unit) \<times> TwitchClient \<times> world" where
  "sendMessage message_text c w =
     (if userId c = [] then
        (case validateToken c (log_line WARN ''Bot User ID not set. Validating token first.'' w) of
           (Inl e, c1, w1) \<Rightarrow> (Inl e, c1, w1)
         | (Inr _, c1, w1) \<Rightarrow>
             if userId c1 = [] then
               (Inr (), c1,
                log_line ERR ''Cannot send message: Bot User ID still not set after validation.'' w1)
             else post_message message_text c1 w1)
      else post_message message_text c w)"

text \<open>\<^verbatim>\<open>ensureToken\<close> and \<^verbatim>\<open>start\<close>; the two \<^verbatim>\<open>setInterval\<close> timers that \<^verbatim>\<open>start\<close> arms fire
  hours or minutes later and are not part of this model.\<close>

definition ensureToken ::
  "TwitchClient \<Rightarrow> world \<Rightarrow> (error + unit) \<times> TwitchClient \<times> world" where
  "ensureToken c w =
     (case (if token c = []
            then refreshToken_call c (log_line INFO ''No OAuth token found. Attempting refresh...'' w)
            else (Inr (), c, w)) of
        (Inl e, c1, w1) \<Rightarrow> (Inl e, c1, w1)
      | (Inr _, c1, w1) \<Rightarrow> validateToken c1 w1)"

definition start ::
  "TwitchClient \<Rightarrow> world \<Rightarrow> (error + unit) \<times> TwitchClient \<times> world" where
  "start c w =
     (case ensureToken c (log_line INFO ''Starting...'' w) of
        (Inl e, c1, w1) \<Rightarrow> (Inl e, c1, w1)
      | (Inr _, c1, w1) \<Rightarrow> (Inr (), c1, log_line INFO ''Started successfully'' w1))"

section \<open>The market-data functions (utils/cryptoApi.ts)\<close>

definition fetch_coingecko :: "world \<Rightarrow> CoinGeckoTrendingResponse fetched \<times> world" where
  "fetch_coingecko w =
     (case coingecko_endpoint w of
        [] \<Rightarrow> (Rejected, w\<lparr>requests := requests w @ [CoinGeckoGet]\<rparr>)
      | r # rs \<Rightarrow> (r, w\<lparr>coingecko_endpoint := rs, requests := requests w @ [CoinGeckoGet]\<rparr>))"

definition fetch_dexscreener :: "world \<Rightarrow> DexScreenerTopBoostsResponse fetched \<times> world" where
  "fetch_dexscreener w =
     (case dexscreener_endpoint w of
        [] \<Rightarrow> (Rejected, w\<lparr>requests := requests w @ [DexScreenerGet]\<rparr>)
      | r # rs \<Rightarrow> (r, w\<lparr>dexscreener_endpoint := rs, requests := requests w @ [DexScreenerGet]\<rparr>))"

text \<open>\<^verbatim>\<open>toUpperCase()\<close> on the ASCII letters; other bytes are left as they are.\<close>

definition toUpperCase :: "string \<Rightarrow> string" where
  "toUpperCase s =
     map (\<lambda>c. let n = (of_char c :: nat) in if 97 \<le> n \<and> n \<le> 122 then char_of (n - 32) else c) s"

text \<open>
  \<^verbatim>\<open>getTrendingCoinGeckoSymbols\<close>: the whole body is one \<^verbatim>\<open>try\<close> whose \<^verbatim>\<open>catch\<close> returns
  \<^verbatim>\<open>[]\<close>, so the function returns a list on every path. The log lines it writes are of
  no consequence here and are left out.
\<close>

definition getTrendingCoinGeckoSymbols :: "world \<Rightarrow> string list \<times> world" where
  "getTrendingCoinGeckoSymbols w =
     (let (r, w1) = fetch_coingecko w in
      case r of
        Rejected \<Rightarrow> ([], w1)
      | Resolved resp \<Rightarrow>
          if \<not> ok resp then ([], w1)
          else
            (case json resp of
               None \<Rightarrow> ([], w1)
             | Some data \<Rightarrow>
                 (case coins data of
                    None \<Rightarrow> ([], w1)
                  | Some items \<Rightarrow>
                      (case those items of
                         None \<Rightarrow> ([], w1)
                       | Some symbols \<Rightarrow> (map toUpperCase symbols, w1)))))"

text \<open>
  \<^verbatim>\<open>getTopBoostedDexScreenerAddresses\<close>, again one \<^verbatim>\<open>try\<close> returning \<^verbatim>\<open>[]\<close> from its
  \<^verbatim>\<open>catch\<close>; \<^verbatim>\<open>filter(addr => !!addr)\<close> keeps the addresses that are present and not empty.
\<close>

definition present_addresses :: "string option list \<Rightarrow> string list" where
  "present_addresses boosts =
     concat (map (\<lambda>a. case a of Some s \<Rightarrow> (if s \<noteq> [] then [s] else []) | None \<Rightarrow> []) boosts)"

definition getTopBoostedDexScreenerAddresses :: "world \<Rightarrow> string list \<times> world" where
  "getTopBoostedDexScreenerAddresses w =
     (let (r, w1) = fetch_dexscreener w in
      case r of
        Rejected \<Rightarrow> ([], w1)
      | Resolved resp \<Rightarrow>
          if \<not> ok resp then ([], w1)
          else
            (case json resp of
               None \<Rightarrow> ([], w1)
             | Some (BoostArray boosts) \<Rightarrow> (present_addresses boosts, w1)
             | Some (BoostsObject boosts) \<Rightarrow> (present_addresses boosts, w1)
             | Some OtherShape \<Rightarrow> ([], w1)))"

section \<open>The posting loop (index.ts)\<close>

text \<open>
  The variables of \<^verbatim>\<open>main\<close> that \<^verbatim>\<open>questionLoop\<close> closes over, with the module-level flag
  \<^verbatim>\<open>useDexScreenerNext\<close>. \<^term>\<open>pending\<close> is the number of \<^verbatim>\<open>questionLoop\<close> calls that have
  been scheduled and have not run yet; \<^term>\<open>cycles\<close> counts the calls that have begun.
\<close>

record scheduler =
  useDexScreenerNext :: bool
  tokenStoreService :: TokenStoreService
  bots :: "TwitchClient list"
  pending :: nat
  cycles :: nat

text \<open>What a cycle does that the claims speak of, in the order it does it.\<close>

datatype source = CoinGecko | DexScreenerStore

datatype event =
    Consult source
  | Toggle
  | Render
  | Post nat

text \<open>
  \<^verbatim>\<open>Math.random()\<close>: the next number of the random source. An index
  \<^verbatim>\<open>Math.floor(Math.random() * n)\<close> is some index below \<open>n\<close>; the model takes the next number
  modulo \<open>n\<close>.
\<close>

definition next_random :: "world \<Rightarrow> nat \<times> world" where
  "next_random w =
     (case random_source w of
        [] \<Rightarrow> (0, w)
      | r # rs \<Rightarrow> (r, w\<lparr>random_source := rs\<rparr>))"

definition random_index :: "nat \<Rightarrow> world \<Rightarrow> nat \<times> world" where
  "random_index n w = (let (r, w1) = next_random w in (r mod n, w1))"

text \<open>
  \<^verbatim>\<open>questionService.getFormattedQuestion(tokenInfo)\<close> is used as a collaborator: the next
  entry of \<^term>\<open>question_service\<close> says what it answers to the subject it is given, a
  question, \<^verbatim>\<open>null\<close>, or an exception. With no entry left it answers \<^verbatim>\<open>null\<close>.
\<close>

definition getFormattedQuestion ::
  "token_info option \<Rightarrow> world \<Rightarrow> (error + string option) \<times> world" where
  "getFormattedQuestion tokenInfo w =
     (case question_service w of
        [] \<Rightarrow> (Inr None, w)
      | q # qs \<Rightarrow> (q tokenInfo, w\<lparr>question_service := qs\<rparr>))"

text \<open>
  \<^verbatim>\<open>persistAddresses\<close> of the store: the array replaces the file unless the write fails,
  which is caught and logged.
\<close>

definition persistAddresses :: "TokenStoreService \<Rightarrow> world \<Rightarrow> world" where
  "persistAddresses s w =
     (case write_results w of
        [] \<Rightarrow> w\<lparr>store_file := StringArray (contractAddresses s)\<rparr>
      | b # bs \<Rightarrow>
          if b then w\<lparr>write_results := bs, store_file := StringArray (contractAddresses s)\<rparr>
          else log_line ERR ''Error persisting addresses'' (w\<lparr>write_results := bs\<rparr>))"

text \<open>\<^verbatim>\<open>refreshDexScreenerTokens\<close>, the closure of \<^verbatim>\<open>main\<close>.\<close>

definition refreshDexScreenerTokens :: "scheduler \<Rightarrow> world \<Rightarrow> scheduler \<times> world" where
  "refreshDexScreenerTokens st w =
     (let (newAddresses, w1) =
            getTopBoostedDexScreenerAddresses (log_line INFO ''Refreshing DexScreener token list...'' w)
      in if length newAddresses > 0 then
           (let (s', persist) = addContractAddresses newAddresses (tokenStoreService st)
            in (st\<lparr>tokenStoreService := s'\<rparr>, if persist then persistAddresses s' w1 else w1))
         else (st, log_line INFO ''No new tokens fetched from DexScreener this cycle.'' w1))"

text \<open>
  The CoinGecko branch of the selection: a random symbol of the live list, if there is one.
\<close>

definition pick_symbol :: "world \<Rightarrow> token_info option \<times> world" where
  "pick_symbol w =
     (let (cgSymbols, w1) = getTrendingCoinGeckoSymbols w in
      if length cgSymbols > 0 then
        (let (i, w2) = random_index (length cgSymbols) w1
         in (Some \<lparr>token_identifier = cgSymbols ! i, identifier_type = ticker\<rparr>, w2))
      else (None, w1))"

text \<open>
  Lines 104 to 139 of \<^verbatim>\<open>questionLoop\<close>: the choice of the subject. The result carries the
  sources consulted, in order.
\<close>

definition select_token ::
  "scheduler \<Rightarrow> world \<Rightarrow> (token_info option \<times> event list) \<times> scheduler \<times> world" where
  "select_token st w =
     (if useDexScreenerNext st then
        (let (a1, s1) = getNextContractAddress (tokenStoreService st);
             st1 = st\<lparr>tokenStoreService := s1\<rparr>;
             (dexTokenAddress, st2, w2) =
               (if \<not> truthy a1 \<and> getStoreSize s1 < getMinStoreThreshold s1 then
                  (let (st', w') = refreshDexScreenerTokens st1 w;
                       (a2, s2) = getNextContractAddress (tokenStoreService st')
                   in (a2, st'\<lparr>tokenStoreService := s2\<rparr>, w'))
                else (a1, st1, w))
         in case dexTokenAddress of
              Some a \<Rightarrow>
                if a \<noteq> [] then
                  ((Some \<lparr>token_identifier = a, identifier_type = address\<rparr>, [Consult DexScreenerStore]),
                   st2, w2)
                else
                  (let (tokenInfo, w3) = pick_symbol w2
                   in ((tokenInfo, [Consult DexScreenerStore, Consult CoinGecko]), st2, w3))
            | None \<Rightarrow>
                (let (tokenInfo, w3) = pick_symbol w2
                 in ((tokenInfo, [Consult DexScreenerStore, Consult CoinGecko]), st2, w3)))
      else
        (let (tokenInfo, w1) = pick_symbol w in
         case tokenInfo of
           Some t \<Rightarrow> ((Some t, [Consult CoinGecko]), st, w1)
         | None \<Rightarrow>
             (let (a1, s1) = getNextContractAddress (tokenStoreService st);
                  st1 = st\<lparr>tokenStoreService := s1\<rparr>
              in ((if truthy a1
                   then (case a1 of Some a \<Rightarrow> Some \<lparr>token_identifier = a, identifier_type = address\<rparr>
                                  | None \<Rightarrow> None)
                   else None,
                   [Consult CoinGecko, Consult DexScreenerStore]), st1, w1))))"

text \<open>
  The \<^verbatim>\<open>try\<close> block of \<^verbatim>\<open>questionLoop\<close>. The timed wait takes one random number and has no
  other effect here. An exception of the question service or of \<^verbatim>\<open>sendMessage\<close> ends the block.
\<close>

definition try_block ::
  "scheduler \<Rightarrow> world \<Rightarrow> (error + unit) \<times> event list \<times> scheduler \<times> world" where
  "try_block st w =
     (let (waitTime, w0) = next_random w;
          w1 = log_line INFO ''Next question in ... minutes.'' w0;
          ((tokenInfo, consulted), st1, w2) = select_token st w1;
          st2 = st1\<lparr>useDexScreenerNext := \<not> useDexScreenerNext st1\<rparr>;
          (rendered, w3) = getFormattedQuestion tokenInfo w2
      in case rendered of
           Inl e \<Rightarrow> (Inl e, consulted @ [Toggle, Render], st2, w3)
         | Inr question \<Rightarrow>
             (case question of
                Some q \<Rightarrow>
                  if q \<noteq> [] \<and> length (bots st2) > 0 then
                    (let (i, w4) = random_index (length (bots st2)) w3;
                         w5 = log_line INFO ''Selected bot to ask'' w4;
                         (sent, b, w6) = sendMessage q (bots st2 ! i) w5
                     in (sent, consulted @ [Toggle, Render, Post i],
                         st2\<lparr>bots := (bots st2)[i := b]\<rparr>, w6))
                  else if q = [] then
                    (Inr (), consulted @ [Toggle, Render], st2,
                     log_line INFO ''No question generated. Skipping.'' w3)
                  else (Inr (), consulted @ [Toggle, Render], st2, w3)
              | None \<Rightarrow>
                  (Inr (), consulted @ [Toggle, Render], st2,
                   log_line INFO ''No question generated. Skipping.'' w3)))"

text \<open>
  \<^verbatim>\<open>questionLoop\<close>: the \<^verbatim>\<open>try\<close> block, the \<^verbatim>\<open>catch\<close> that logs, and the \<^verbatim>\<open>finally\<close> with
  \<^verbatim>\<open>setImmediate(questionLoop)\<close>, which adds one pending call.
\<close>

definition questionLoop :: "scheduler \<Rightarrow> world \<Rightarrow> event list \<times> scheduler \<times> world" where
  "questionLoop st w =
     (let (res, evs, st1, w1) = try_block (st\<lparr>cycles := cycles st + 1\<rparr>) w;
          w2 = (case res of
                  Inl e \<Rightarrow> log_line ERR ''[MainLoop] Error'' w1
                | Inr _ \<Rightarrow> w1)
      in (evs, st1\<lparr>pending := pending st1 + 1\<rparr>, w2))"

text \<open>
  The event loop, observed for \<open>n\<close> turns: each turn takes one pending \<^verbatim>\<open>questionLoop\<close> call
  and runs it; with none pending, nothing runs any more. The result lists the events of
  each cycle that ran. The interval timers of the process (token refresh, token
  validation, store refill) write neither the flag nor the pending calls and are left out.
\<close>

fun event_loop :: "nat \<Rightarrow> scheduler \<Rightarrow> world \<Rightarrow> event list list \<times> scheduler \<times> world" where
  "event_loop 0 st w = ([], st, w)"
| "event_loop (Suc n) st w =
     (if pending st = 0 then ([], st, w)
      else
        (let (evs, st1, w1) = questionLoop (st\<lparr>pending := pending st - 1\<rparr>) w;
             (rest, st2, w2) = event_loop n st1 w1
         in (evs # rest, st2, w2)))"

section \<open>Startup (index.ts, \<^verbatim>\<open>main\<close>)\<close>

text \<open>
  Lines 53 and 54 compute the two interval bounds with JavaScript's own \<^verbatim>\<open>parseInt\<close>:
  \<^verbatim>\<open>parseInt(process.env.DELTA_T_MIN_MINUTES || "5", 10)\<close> and its counterpart with
  \<^verbatim>\<open>"60"\<close>. \<^verbatim>\<open>parseInt\<close> returns \<^verbatim>\<open>NaN\<close>, a number whose value is an integer, or an
  infinity. The two values are taken as they come out; \<^verbatim>\<open>isNaN\<close> and \<^verbatim>\<open><=\<close> are the
  operations the code applies to them, and a comparison with \<^verbatim>\<open>NaN\<close> is false.
\<close>

datatype js_number = NaN | NegInfinity | Num int | PosInfinity

definition isNaN :: "js_number \<Rightarrow> bool" where
  "isNaN x = (x = NaN)"

fun js_le :: "js_number \<Rightarrow> js_number \<Rightarrow> bool" where
  "js_le NaN y = False"
| "js_le x NaN = False"
| "js_le NegInfinity y = True"
| "js_le x PosInfinity = True"
| "js_le (Num a) (Num b) = (a \<le> b)"
| "js_le x y = False"

text \<open>
  The test of line 56:
  \<^verbatim>\<open>isNaN(min) || isNaN(max) || min <= 0 || max <= min\<close>.
\<close>

definition invalid_interval :: "js_number \<Rightarrow> js_number \<Rightarrow> bool" where
  "invalid_interval deltaTMinMinutes deltaTMaxMinutes =
     (isNaN deltaTMinMinutes \<or> isNaN deltaTMaxMinutes \<or>
      js_le deltaTMinMinutes (Num 0) \<or> js_le deltaTMaxMinutes deltaTMinMinutes)"

text \<open>
  A bot entry of the configuration file before \<^verbatim>\<open>twitchBotConfigSchema.parse\<close> has seen it:
  each field is absent, a string, or something else.
\<close>

datatype raw_field = Absent | Str string | NotAString

record raw_bot_config =
  raw_clientId :: raw_field
  raw_clientSecret :: raw_field
  raw_refreshToken :: raw_field
  raw_oauthToken :: raw_field
  raw_channelUserId :: raw_field
  raw_botUserId :: raw_field

fun required_field :: "raw_field \<Rightarrow> string option" where
  "required_field (Str s) = (if length s \<ge> 1 then Some s else None)"
| "required_field _ = None"

fun optional_field :: "raw_field \<Rightarrow> string option option" where
  "optional_field Absent = Some None"
| "optional_field (Str s) = Some (Some s)"
| "optional_field NotAString = None"

definition twitchBotConfigSchema_parse :: "raw_bot_config \<Rightarrow> TwitchBotConfig option" where
  "twitchBotConfigSchema_parse raw =
     (case (required_field (raw_clientId raw), required_field (raw_clientSecret raw),
            required_field (raw_refreshToken raw), optional_field (raw_oauthToken raw),
            required_field (raw_channelUserId raw), optional_field (raw_botUserId raw)) of
        (Some ci, Some cs, Some rt, Some ot, Some ch, Some bu) \<Rightarrow>
          Some \<lparr>clientId = ci, clientSecret = cs, refreshToken = rt, oauthToken = ot,
                channelUserId = ch, botUserId = bu\<rparr>
      | _ \<Rightarrow> None)"

text \<open>
  What \<^verbatim>\<open>main\<close> finds when it starts: the result of \<^verbatim>\<open>loadAppConfig\<close> (\<^term>\<open>None\<close> for
  \<^verbatim>\<open>null\<close>) and the two interval bounds as lines 53 and 54 have computed them.
\<close>

record startup =
  loaded_config :: "(raw_bot_config \<times> raw_bot_config) option"
  deltaTMinMinutes :: js_number
  deltaTMaxMinutes :: js_number

text \<open>
  \<^verbatim>\<open>main\<close> up to its last statement, the first call \<^verbatim>\<open>questionLoop()\<close>, which is handed
  over as one pending call. \<^term>\<open>Inl\<close> carries the code of \<^verbatim>\<open>process.exit\<close>. A schema
  error thrown by a constructor rejects \<^verbatim>\<open>main\<close>, whose \<^verbatim>\<open>catch\<close> handler exits with 1.
  The store's constructor starts the load of the persisted file; it is taken to complete
  before the first refill.
\<close>

definition start_bot ::
  "string \<Rightarrow> TwitchClient \<Rightarrow> TwitchClient list \<times> world \<Rightarrow> TwitchClient list \<times> world" where
  "start_bot failure_line b acc =
     (let (started, w) = acc in
      case start b w of
        (Inl e, b', w') \<Rightarrow> (started, log_line ERR failure_line w')
      | (Inr _, b', w') \<Rightarrow> (started @ [b'], w'))"

definition main :: "startup \<Rightarrow> world \<Rightarrow> (nat + scheduler) \<times> world" where
  "main su w =
     (let w1 = log_line INFO ''Starting AIR3 Twitch Crypto Bro Bot...'' w in
      case loaded_config su of
        None \<Rightarrow> (Inl 1, log_line FATAL ''Exiting due to configuration load failure.'' w1)
      | Some (raw1, raw2) \<Rightarrow>
          (if invalid_interval (deltaTMinMinutes su) (deltaTMaxMinutes su) then
             (Inl 1,
              log_line FATAL ''Invalid DELTA_T_MIN_MINUTES or DELTA_T_MAX_MINUTES in .env file.'' w1)
           else
             (let w2 = log_line INFO ''Question interval'' w1 in
              case (twitchBotConfigSchema_parse raw1, twitchBotConfigSchema_parse raw2) of
                (Some cfg1, Some cfg2) \<Rightarrow>
                  (let twitchBot1 = new_TwitchClient cfg1 ''bot1'';
                       twitchBot2 = new_TwitchClient cfg2 ''bot2'';
                       (started, w3) =
                         start_bot ''Failed to start Bot 2'' twitchBot2
                           (start_bot ''Failed to start Bot 1'' twitchBot1 ([], w2))
                   in if length started = 0 then
                        (Inl 1, log_line FATAL ''No Twitch bots started. Exiting.'' w3)
                      else
                        (let w4 = log_line INFO ''Twitch bot(s) initialized.'' w3;
                             st = \<lparr>useDexScreenerNext = False,
                                   tokenStoreService =
                                     loadPersistedAddresses (store_file w4) new_TokenStoreService,
                                   bots = started, pending = 0, cycles = 0\<rparr>;
                             (st1, w5) = refreshDexScreenerTokens st w4
                         in (Inr (st1\<lparr>pending := 1\<rparr>), w5)))
              | _ \<Rightarrow> (Inl 1, log_line FATAL ''Unhandled startup error'' w2))))"

text \<open>The process: startup, then \<open>n\<close> turns of the event loop if startup got that far.\<close>

definition program ::
  "nat \<Rightarrow> startup \<Rightarrow> world \<Rightarrow> (nat + scheduler) \<times> event list list \<times> world" where
  "program n su w =
     (case main su w of
        (Inl code, w') \<Rightarrow> (Inl code, [], w')
      | (Inr st, w') \<Rightarrow>
          (let (evs, st', w'') = event_loop n st w' in (Inr st', evs, w'')))"

section \<open>Notions used in the statements\<close>

text \<open>
  Where a round of reads starts: the cursor, or 0 when the cursor is at or past the end
  (the reset at the head of \<^verbatim>\<open>getNextContractAddress\<close>).
\<close>

definition start_pos :: "TokenStoreService \<Rightarrow> nat" where
  "start_pos s = (if currentIndex s \<ge> length (contractAddresses s) then 0 else currentIndex s)"

text \<open>The next answer of the chat endpoint is a success.\<close>

definition chat_accepts :: "world \<Rightarrow> bool" where
  "chat_accepts w =
     (case chat_endpoint w of
        Resolved resp # _ \<Rightarrow> ok resp
      | _ \<Rightarrow> False)"

text \<open>Concrete inputs for the examples below.\<close>

definition full_store :: TokenStoreService where
  "full_store =
     \<lparr>contractAddresses = map (\<lambda>n. replicate (Suc n) CHR ''x'') [0..<200], currentIndex = 0\<rparr>"

definition bot_config :: TwitchBotConfig where
  "bot_config =
     \<lparr>clientId = ''client-1'', clientSecret = ''secret-1'', refreshToken = ''refresh-0'',
      oauthToken = Some ''token-0'', channelUserId = ''channel-9'', botUserId = Some ''42''\<rparr>"

definition quiet_world :: world where
  "quiet_world =
     \<lparr>token_endpoint = [], validate_endpoint = [], chat_endpoint = [],
      coingecko_endpoint = [], dexscreener_endpoint = [], random_source = [],
      question_service = [], config_file = Some [(''bot1'', bot_config)],
      store_file = ENOENT, write_results = [], requests = [], logged = [],
      persist_calls = 0, file_writes = 0\<rparr>"

definition http_ok :: "'a \<Rightarrow> 'a fetched" where
  "http_ok j = Resolved \<lparr>ok = True, status = 200, json = Some j, body_text = None\<rparr>"

definition http_error :: "nat \<Rightarrow> 'a option \<Rightarrow> string \<Rightarrow> 'a fetched" where
  "http_error code j t = Resolved \<lparr>ok = False, status = code, json = j, body_text = Some t\<rparr>"

text \<open>
  A client whose identifier is known, one whose identifier is not, and one without an
  access token.
\<close>

definition identified_client :: TwitchClient where
  "identified_client = new_TwitchClient bot_config ''bot1''"

definition unidentified_client :: TwitchClient where
  "unidentified_client = new_TwitchClient (bot_config\<lparr>botUserId := None\<rparr>) ''bot1''"

definition tokenless_client :: TwitchClient where
  "tokenless_client = new_TwitchClient (bot_config\<lparr>oauthToken := None\<rparr>) ''bot1''"

text \<open>
  A world in which the access token is rejected and the refresh token has been revoked; one
  in which the access token is confirmed for user 42; one in which a refresh succeeds first.
\<close>

definition revoked_world :: world where
  "revoked_world =
     quiet_world\<lparr>validate_endpoint := [http_error 401 None ''invalid access token''],
                 token_endpoint :=
                   [http_error 400 (Some \<lparr>access_token = None, refresh_token = None,
                                           message = Some ''Invalid refresh token''\<rparr>) '''']\<rparr>"

definition confirming_world :: world where
  "confirming_world = quiet_world\<lparr>validate_endpoint := [http_ok \<lparr>user_id = ''42''\<rparr>]\<rparr>"

definition refreshing_world :: world where
  "refreshing_world =
     quiet_world\<lparr>token_endpoint :=
                   [http_ok \<lparr>access_token = Some ''token-1'', refresh_token = None,
                             message = None\<rparr>],
                 validate_endpoint := [http_ok \<lparr>user_id = ''42''\<rparr>]\<rparr>"

text \<open>
  A scheduler with one started bot and one pending cycle, and a world whose question
  service throws.
\<close>

definition idle_scheduler :: scheduler where
  "idle_scheduler =
     \<lparr>useDexScreenerNext = False, tokenStoreService = new_TokenStoreService,
      bots = [identified_client], pending = 1, cycles = 0\<rparr>"

definition failing_world :: world where
  "failing_world = quiet_world\<lparr>question_service := [\<lambda>tokenInfo. Inl QuestionError]\<rparr>"

text \<open>
  The operator \<^verbatim>\<open><\<close> on the values \<^verbatim>\<open>parseInt\<close> returns, in which the requirement on
  the bounds is stated: \<open>0 < min\<close> and \<open>min < max\<close>.
\<close>

fun js_less :: "js_number \<Rightarrow> js_number \<Rightarrow> bool" where
  "js_less NaN y = False"
| "js_less x NaN = False"
| "js_less NegInfinity NegInfinity = False"
| "js_less NegInfinity y = True"
| "js_less PosInfinity y = False"
| "js_less x PosInfinity = True"
| "js_less (Num a) (Num b) = (a < b)"
| "js_less x y = False"

text \<open>
  A configuration file entry that the schema accepts and a startup from it with the
  interval variables unset (5 and 60); one whose minimum is no number; one whose bounds
  are both 60; one whose variables are \<open>2^53\<close> and \<open>2^53 + 1\<close>, which \<^verbatim>\<open>parseInt\<close> returns as
  the same number.
\<close>

definition raw_bot :: raw_bot_config where
  "raw_bot =
     \<lparr>raw_clientId = Str ''client-1'', raw_clientSecret = Str ''secret-1'',
      raw_refreshToken = Str ''refresh-0'', raw_oauthToken = Str ''token-0'',
      raw_channelUserId = Str ''channel-9'', raw_botUserId = Str ''42''\<rparr>"

definition default_startup :: startup where
  "default_startup =
     \<lparr>loaded_config = Some (raw_bot, raw_bot),
      deltaTMinMinutes = Num 5, deltaTMaxMinutes = Num 60\<rparr>"

definition unparsable_startup :: startup where
  "unparsable_startup = default_startup\<lparr>deltaTMinMinutes := NaN\<rparr>"

definition inverted_startup :: startup where
  "inverted_startup = default_startup\<lparr>deltaTMinMinutes := Num 60, deltaTMaxMinutes := Num 60\<rparr>"

definition rounded_startup :: startup where
  "rounded_startup =
     default_startup\<lparr>deltaTMinMinutes := Num 9007199254740992,
                      deltaTMaxMinutes := Num 9007199254740992\<rparr>"

text \<open>
  From world \<open>w\<close> to world \<open>w'\<close> requests were only added, none of them to a market-data
  endpoint.
\<close>

definition no_market_request :: "world \<Rightarrow> world \<Rightarrow> bool" where
  "no_market_request w w' =
     (\<exists>rs. requests w' = requests w @ rs \<and> CoinGeckoGet \<notin> set rs \<and> DexScreenerGet \<notin> set rs)"

text \<open>A client with neither access token nor identifier, as the README's configuration gives.\<close>

definition blank_client :: TwitchClient where
  "blank_client =
     new_TwitchClient (bot_config\<lparr>oauthToken := None, botUserId := None\<rparr>) ''bot1''"

text \<open>
  A scheduler whose store holds one address, and a world in which CoinGecko reports one
  trending symbol.
\<close>

definition stocked_scheduler :: scheduler where
  "stocked_scheduler =
     idle_scheduler\<lparr>tokenStoreService := \<lparr>contractAddresses = [''0xabc''], currentIndex = 0\<rparr>\<rparr>"

definition trending_world :: world where
  "trending_world = quiet_world\<lparr>coingecko_endpoint := [http_ok \<lparr>coins = Some [Some ''btc'']\<rparr>]\<rparr>"

section \<open>Properties of the token store\<close>

lemma add_address_lists:
  "fst (add_address cap (xs, k) a) =
     (if a \<in> set xs then xs else (if length xs \<ge> cap then tl xs else xs) @ [a])"
  by (simp add: add_address_def)

lemma distinct_tl_snoc: "distinct xs \<Longrightarrow> a \<notin> set xs \<Longrightarrow> distinct (tl xs @ [a])"
  by (cases xs) auto

lemma add_address_distinct:
  "distinct (fst acc) \<Longrightarrow> distinct (fst (add_address cap acc a))"
proof (cases acc)
  case (Pair xs k)
  assume "distinct (fst acc)"
  then have d: "distinct xs" using Pair by simp
  show ?thesis
  proof (cases "a \<in> set xs")
    case True
    then show ?thesis using d Pair by (simp add: add_address_lists)
  next
    case False
    have "distinct (tl xs @ [a])" using d False by (rule distinct_tl_snoc)
    moreover have "distinct (xs @ [a])" using d False by simp
    ultimately show ?thesis using False Pair by (simp add: add_address_lists del: distinct_append)
  qed
qed

lemma add_address_length:
  "0 < cap \<Longrightarrow> length (fst acc) \<le> cap \<Longrightarrow> length (fst (add_address cap acc a)) \<le> cap"
  by (cases acc) (auto simp: add_address_def)

lemma foldl_add_address_distinct:
  "distinct (fst acc) \<Longrightarrow> distinct (fst (foldl (add_address cap) acc as))"
  by (induction as arbitrary: acc) (simp_all add: add_address_distinct)

lemma foldl_add_address_length:
  "0 < cap \<Longrightarrow> length (fst acc) \<le> cap \<Longrightarrow> length (fst (foldl (add_address cap) acc as)) \<le> cap"
  by (induction as arbitrary: acc) (simp_all add: add_address_length)

lemma addContractAddresses_with_list:
  "contractAddresses (fst (addContractAddresses_with cap as s)) =
     fst (foldl (add_address cap) (contractAddresses s, 0) as)"
  by (simp add: addContractAddresses_with_def split: prod.splits)

lemma addContractAddresses_with_index:
  "currentIndex (fst (addContractAddresses_with cap as s)) = currentIndex s"
  by (simp add: addContractAddresses_with_def split: prod.splits)

lemma getNext_list: "contractAddresses (snd (getNextContractAddress s)) = contractAddresses s"
  by (simp add: getNextContractAddress_def Let_def)

lemma store_step_length:
  "0 < cap \<Longrightarrow> length (contractAddresses s) \<le> cap \<Longrightarrow>
   length (contractAddresses (store_step cap s c)) \<le> cap"
proof (cases c)
  case (Load f)
  assume "length (contractAddresses s) \<le> cap"
  then show ?thesis using Load
    by (cases f) (simp_all add: loadPersistedAddresses_with_def)
next
  case (Add as)
  assume "0 < cap" "length (contractAddresses s) \<le> cap"
  then show ?thesis using Add
    by (simp add: addContractAddresses_with_list foldl_add_address_length)
next
  case Next
  assume "length (contractAddresses s) \<le> cap"
  then show ?thesis using Next by (simp add: getNext_list)
qed

lemma store_step_distinct:
  "load_distinct c \<Longrightarrow> distinct (contractAddresses s) \<Longrightarrow>
   distinct (contractAddresses (store_step cap s c))"
proof (cases c)
  case (Load f)
  assume "load_distinct c" "distinct (contractAddresses s)"
  then show ?thesis using Load
    by (cases f) (simp_all add: loadPersistedAddresses_with_def)
next
  case (Add as)
  assume "distinct (contractAddresses s)"
  then show ?thesis using Add
    by (simp add: addContractAddresses_with_list foldl_add_address_distinct)
next
  case Next
  assume "distinct (contractAddresses s)"
  then show ?thesis using Next by (simp add: getNext_list)
qed

lemma foldl_store_step_length:
  "0 < cap \<Longrightarrow> length (contractAddresses s) \<le> cap \<Longrightarrow>
   length (contractAddresses (foldl (store_step cap) s calls)) \<le> cap"
  by (induction calls arbitrary: s) (simp_all add: store_step_length)

lemma foldl_store_step_distinct:
  "\<forall>c\<in>set calls. load_distinct c \<Longrightarrow> distinct (contractAddresses s) \<Longrightarrow>
   distinct (contractAddresses (foldl (store_step cap) s calls))"
  by (induction calls arbitrary: s) (simp_all add: store_step_distinct)

text \<open>
  Claim C3, as the code has it. After any sequence of loads, additions and reads, starting
  from the empty store, the store holds at most \<^term>\<open>MAX_STORE_SIZE\<close> entries; and it holds
  no entry twice provided no loaded snapshot does. \<^verbatim>\<open>loadPersistedAddresses\<close> cuts the
  snapshot to size but takes its entries as they are.
\<close>

theorem store_bounded_and_unique_when_snapshots_unique:
  "length (contractAddresses (store_run calls)) \<le> MAX_STORE_SIZE \<and>
   ((\<forall>c\<in>set calls. load_distinct c) \<longrightarrow> distinct (contractAddresses (store_run calls)))"
  unfolding store_run_def
  by (simp add: foldl_store_step_length foldl_store_step_distinct
        new_TokenStoreService_def MAX_STORE_SIZE_def)

text \<open>A run with a load, an addition that brings one duplicate and one new entry, and a read.\<close>

theorem store_bounded_and_unique_when_snapshots_unique_witness:
  "load_distinct (Load (StringArray [''a'', ''b''])) \<and>
   load_distinct (Add [''b'', ''c'']) \<and> load_distinct Next \<and>
   contractAddresses (store_run [Load (StringArray [''a'', ''b'']), Add [''b'', ''c''], Next])
     = [''a'', ''b'', ''c''] \<and>
   distinct (contractAddresses (store_run [Load (StringArray [''a'', ''b'']), Add [''b'', ''c''], Next]))"
  using store_bounded_and_unique_when_snapshots_unique
    [of "[Load (StringArray [''a'', ''b'']), Add [''b'', ''c''], Next]"]
  by (simp add: store_run_def new_TokenStoreService_def MAX_STORE_SIZE_def
        loadPersistedAddresses_with_def addContractAddresses_with_def add_address_def
        getNextContractAddress_def)

text \<open>
  Claim C3 as stated fails: a persisted array that repeats an entry is loaded as it is.
\<close>

theorem store_duplicates_after_load_counterexample:
  "\<not> distinct (contractAddresses (store_run [Load (StringArray [''A'', ''A''])]))"
  by (simp add: store_run_def new_TokenStoreService_def MAX_STORE_SIZE_def
        loadPersistedAddresses_with_def)

text \<open>
  Claim C10. On a non-empty store \<^verbatim>\<open>getNextContractAddress\<close> returns an entry of the store,
  wherever the cursor stands: the cursor is brought back into range before the read.
\<close>

theorem next_returns_member:
  "contractAddresses s \<noteq> [] \<Longrightarrow>
   (\<exists>a. fst (getNextContractAddress s) = Some a \<and> a \<in> set (contractAddresses s))"
  by (simp add: getNextContractAddress_def Let_def)

lemma next_calls_nth:
  "contractAddresses s \<noteq> [] \<Longrightarrow>
   fst (next_calls n s) =
     map (\<lambda>i. Some (contractAddresses s ! ((start_pos s + i) mod length (contractAddresses s)))) [0..<n]
   \<and> contractAddresses (snd (next_calls n s)) = contractAddresses s"
proof (induction n arbitrary: s)
  case 0
  then show ?case by simp
next
  case (Suc n)
  let ?xs = "contractAddresses s"
  let ?s' = "snd (getNextContractAddress s)"
  have xs': "contractAddresses ?s' = ?xs" by (simp add: getNext_list)
  have ne: "?xs \<noteq> []" by (rule Suc.prems)
  have p: "start_pos s < length ?xs" using ne by (simp add: start_pos_def)
  have a: "fst (getNextContractAddress s) = Some (?xs ! start_pos s)"
    using ne by (simp add: getNextContractAddress_def start_pos_def Let_def)
  have c: "currentIndex ?s' = start_pos s + 1"
    using ne by (simp add: getNextContractAddress_def start_pos_def Let_def)
  have sp: "(start_pos ?s' + i) mod length ?xs = (start_pos s + Suc i) mod length ?xs" for i
  proof (cases "start_pos s + 1 = length ?xs")
    case True
    then have "start_pos ?s' = 0" by (simp add: start_pos_def c xs')
    moreover have "(start_pos s + Suc i) mod length ?xs = (length ?xs + i) mod length ?xs"
      using True by (metis add_Suc_right add_Suc Suc_eq_plus1)
    ultimately show ?thesis by simp
  next
    case False
    then have "start_pos ?s' = start_pos s + 1" using p by (simp add: start_pos_def c xs')
    then show ?thesis by simp
  qed
  from Suc.IH[of ?s'] ne xs'
  have ih: "fst (next_calls n ?s') =
      map (\<lambda>i. Some (?xs ! ((start_pos s + Suc i) mod length ?xs))) [0..<n]"
    and ih2: "contractAddresses (snd (next_calls n ?s')) = ?xs"
    by (simp_all add: sp)
  have "fst (next_calls (Suc n) s) = fst (getNextContractAddress s) # fst (next_calls n ?s')"
    by (simp add: split_def Let_def)
  also have "\<dots> = map (\<lambda>i. Some (?xs ! ((start_pos s + i) mod length ?xs))) [0..<Suc n]"
    using p by (simp add: a ih upt_rec[of 0 "Suc n"] map_Suc_upt[symmetric] del: upt_Suc)
  finally have 1: "fst (next_calls (Suc n) s) =
     map (\<lambda>i. Some (?xs ! ((start_pos s + i) mod length ?xs))) [0..<Suc n]" .
  have 2: "contractAddresses (snd (next_calls (Suc n) s)) = ?xs"
    by (simp add: split_def Let_def ih2)
  show ?case using 1 2 by blast
qed

lemma mset_rotate_eq: "mset (rotate n xs) = mset xs"
proof -
  have "mset (drop k xs) + mset (take k xs) = mset xs" for k
    by (metis append_take_drop_id mset_append union_commute)
  then show ?thesis by (simp add: rotate_drop_take)
qed

lemma full_pass_rotate:
  assumes "contractAddresses s \<noteq> []"
  shows "fst (next_calls (length (contractAddresses s)) s) =
           map Some (rotate (start_pos s) (contractAddresses s))"
proof -
  let ?xs = "contractAddresses s"
  have "map (\<lambda>i. Some (?xs ! ((start_pos s + i) mod length ?xs))) [0..<length ?xs]
        = map Some (rotate (start_pos s) ?xs)"
    by (rule nth_equalityI) (simp_all add: nth_rotate)
  then show ?thesis using next_calls_nth[OF assms, of "length ?xs"] by simp
qed

text \<open>
  Claim C4. On a non-empty store of \<open>N\<close> entries, \<open>N\<close> reads in a row return the stored
  list rotated to the starting position, so every entry exactly once; the store is not
  changed; a read leaves the cursor one past the position it read, and a cursor at or past
  the end restarts at 0. On an empty store the read returns \<^verbatim>\<open>null\<close> and changes nothing.
\<close>

theorem round_robin_full_pass:
  "(contractAddresses s \<noteq> [] \<longrightarrow>
      fst (next_calls (length (contractAddresses s)) s)
        = map Some (rotate (start_pos s) (contractAddresses s)) \<and>
      mset (fst (next_calls (length (contractAddresses s)) s))
        = mset (map Some (contractAddresses s)) \<and>
      contractAddresses (snd (next_calls (length (contractAddresses s)) s))
        = contractAddresses s \<and>
      currentIndex (snd (getNextContractAddress s)) = start_pos s + 1) \<and>
   (contractAddresses s = [] \<longrightarrow> getNextContractAddress s = (None, s))"
proof (intro conjI impI)
  assume ne: "contractAddresses s \<noteq> []"
  show r: "fst (next_calls (length (contractAddresses s)) s)
        = map Some (rotate (start_pos s) (contractAddresses s))"
    using ne by (rule full_pass_rotate)
  show "mset (fst (next_calls (length (contractAddresses s)) s))
        = mset (map Some (contractAddresses s))"
    by (simp only: r mset_map mset_rotate_eq)
  show "contractAddresses (snd (next_calls (length (contractAddresses s)) s))
        = contractAddresses s"
    using next_calls_nth[OF ne, of "length (contractAddresses s)"] by (rule conjunct2)
  show "currentIndex (snd (getNextContractAddress s)) = start_pos s + 1"
    using ne by (simp add: getNextContractAddress_def start_pos_def Let_def)
next
  assume "contractAddresses s = []"
  then show "getNextContractAddress s = (None, s)"
    by (simp add: getNextContractAddress_def)
qed

text \<open>Three entries read from cursor 2, and a read of an empty store.\<close>

theorem round_robin_full_pass_witness:
  "contractAddresses \<lparr>contractAddresses = [''a'', ''b'', ''c''], currentIndex = 2\<rparr> \<noteq> [] \<and>
   fst (next_calls 3 \<lparr>contractAddresses = [''a'', ''b'', ''c''], currentIndex = 2\<rparr>)
     = [Some ''c'', Some ''a'', Some ''b''] \<and>
   getNextContractAddress \<lparr>contractAddresses = [], currentIndex = 5\<rparr>
     = (None, \<lparr>contractAddresses = [], currentIndex = 5\<rparr>)"
proof -
  let ?s = "\<lparr>contractAddresses = [''a'', ''b'', ''c''], currentIndex = 2\<rparr>"
  let ?e = "\<lparr>contractAddresses = [], currentIndex = 5\<rparr>"
  have ne: "contractAddresses ?s \<noteq> []" by simp
  have l: "length (contractAddresses ?s) = 3" by simp
  have r: "map Some (rotate (start_pos ?s) (contractAddresses ?s))
             = [Some ''c'', Some ''a'', Some ''b'']"
    by (simp add: start_pos_def numeral_2_eq_2)
  have "fst (next_calls (length (contractAddresses ?s)) ?s)
          = map Some (rotate (start_pos ?s) (contractAddresses ?s))"
    by (rule round_robin_full_pass[of ?s, THEN conjunct1, THEN mp, OF ne, THEN conjunct1])
  then have p: "fst (next_calls 3 ?s) = [Some ''c'', Some ''a'', Some ''b'']"
    unfolding l r .
  have em: "contractAddresses ?e = []" by simp
  have "getNextContractAddress ?e = (None, ?e)"
    by (rule round_robin_full_pass[of ?e, THEN conjunct2, THEN mp, OF em])
  with ne p show ?thesis by (intro conjI)
qed

text \<open>A cursor far past the end of a store of two.\<close>

theorem next_returns_member_witness:
  "contractAddresses \<lparr>contractAddresses = [''a'', ''b''], currentIndex = 7\<rparr> \<noteq> [] \<and>
   fst (getNextContractAddress \<lparr>contractAddresses = [''a'', ''b''], currentIndex = 7\<rparr>) = Some ''a''"
  using next_returns_member[of "\<lparr>contractAddresses = [''a'', ''b''], currentIndex = 7\<rparr>"]
  by (simp add: getNextContractAddress_def)

lemma drop_tl_snoc:
  assumes "length ys = cap" "0 < cap"
  shows "drop (length (tl ys @ x # xs) - cap) (tl ys @ x # xs)
       = drop (length (ys @ x # xs) - cap) (ys @ x # xs)"
proof -
  obtain y ys' where ys: "ys = y # ys'" using assms by (cases ys) auto
  have "length (tl ys @ x # xs) - cap = length xs" using assms ys by simp
  moreover have "length (ys @ x # xs) - cap = Suc (length xs)" using assms by simp
  ultimately show ?thesis using ys by simp
qed

lemma foldl_add_address_latest:
  "0 < cap \<Longrightarrow> length ys \<le> cap \<Longrightarrow> distinct (ys @ xs) \<Longrightarrow>
   fst (foldl (add_address cap) (ys, k) xs) = drop (length (ys @ xs) - cap) (ys @ xs)"
proof (induction xs arbitrary: ys k)
  case Nil
  then show ?case by simp
next
  case (Cons x xs)
  have nx: "x \<notin> set ys" using Cons.prems(3) by auto
  show ?case
  proof (cases "length ys = cap")
    case True
    let ?ys' = "tl ys @ [x]"
    have step: "add_address cap (ys, k) x = (?ys', k + 1)"
      using nx True by (simp add: add_address_def)
    have l: "length ?ys' \<le> cap" using True Cons.prems(1) by simp
    have "distinct (tl ys @ x # xs)"
      using Cons.prems(3) by (cases ys) auto
    then have d: "distinct (?ys' @ xs)" by simp
    have "fst (foldl (add_address cap) (ys, k) (x # xs))
            = drop (length (?ys' @ xs) - cap) (?ys' @ xs)"
      using Cons.IH[OF Cons.prems(1) l d, of "k + 1"] step by simp
    also have "\<dots> = drop (length (ys @ x # xs) - cap) (ys @ x # xs)"
      using drop_tl_snoc[OF True Cons.prems(1), of x xs] by simp
    finally show ?thesis .
  next
    case False
    then have lt: "length ys < cap" using Cons.prems(2) by simp
    let ?ys' = "ys @ [x]"
    have step: "add_address cap (ys, k) x = (?ys', k + 1)"
      using nx lt by (simp add: add_address_def)
    have l: "length ?ys' \<le> cap" using lt by simp
    have d: "distinct (?ys' @ xs)" using Cons.prems(3) by simp
    show ?thesis
      using Cons.IH[OF Cons.prems(1) l d, of "k + 1"] step by simp
  qed
qed

lemma store_holds_latest:
  "distinct xs \<Longrightarrow>
   contractAddresses (fst (addContractAddresses xs new_TokenStoreService))
     = drop (length xs - MAX_STORE_SIZE) xs"
  using foldl_add_address_latest[of MAX_STORE_SIZE "[]" xs 0]
  by (simp add: addContractAddresses_def addContractAddresses_with_def new_TokenStoreService_def
        MAX_STORE_SIZE_def split_def)

lemma add_at_capacity_with:
  "length (contractAddresses s) = cap \<Longrightarrow> a \<notin> set (contractAddresses s) \<Longrightarrow>
   contractAddresses (fst (addContractAddresses_with cap [a] s)) = tl (contractAddresses s) @ [a]"
  by (simp add: addContractAddresses_with_list add_address_lists)

text \<open>
  Claim C5. On a store that holds \<^term>\<open>MAX_STORE_SIZE\<close> entries, adding an identifier that
  is not stored removes the first entry and appends the new one. The first entry is the
  one added earliest: identifiers added to the empty store, all different, leave the last
  200 of them in the order they came. With the capacity set to 3, adding A, B, C, D to the
  empty store leaves B, C, D.
\<close>

theorem fifo_eviction_at_capacity:
  "(length (contractAddresses s) = MAX_STORE_SIZE \<and> a \<notin> set (contractAddresses s) \<longrightarrow>
      contractAddresses (fst (addContractAddresses [a] s)) = tl (contractAddresses s) @ [a] \<and>
      contractAddresses s = hd (contractAddresses s) # tl (contractAddresses s)) \<and>
   (distinct xs \<longrightarrow>
      contractAddresses (fst (addContractAddresses xs new_TokenStoreService))
        = drop (length xs - MAX_STORE_SIZE) xs) \<and>
   contractAddresses (fst (addContractAddresses_with 3 [''A'', ''B'', ''C'', ''D''] new_TokenStoreService))
     = [''B'', ''C'', ''D'']"
proof -
  have ex: "contractAddresses (fst (addContractAddresses_with 3 [''A'', ''B'', ''C'', ''D''] new_TokenStoreService))
     = [''B'', ''C'', ''D'']"
    by (simp add: addContractAddresses_with_def add_address_def new_TokenStoreService_def)
  have ne: "contractAddresses s = hd (contractAddresses s) # tl (contractAddresses s)"
    if "length (contractAddresses s) = MAX_STORE_SIZE"
    using that by (cases "contractAddresses s") (simp_all add: MAX_STORE_SIZE_def)
  show ?thesis
    using ex ne add_at_capacity_with[of s MAX_STORE_SIZE a] store_holds_latest[of xs]
    by (simp add: addContractAddresses_def)
qed

text \<open>A store of 200 distinct entries.\<close>

theorem fifo_eviction_at_capacity_witness:
  "length (contractAddresses full_store) = MAX_STORE_SIZE \<and>
   ''A'' \<notin> set (contractAddresses full_store) \<and>
   contractAddresses (fst (addContractAddresses [''A''] full_store))
     = tl (contractAddresses full_store) @ [''A''] \<and>
   hd (contractAddresses full_store) = ''x''"
proof -
  have 1: "length (contractAddresses full_store) = MAX_STORE_SIZE"
    by (simp add: full_store_def MAX_STORE_SIZE_def)
  have 2: "''A'' \<notin> set (contractAddresses full_store)"
    by (auto simp: full_store_def)
  have 3: "hd (contractAddresses full_store) = ''x''"
    by (simp add: full_store_def hd_map)
  show ?thesis
    using 1 2 3 fifo_eviction_at_capacity[of full_store "''A''" "[]"] by simp
qed

section \<open>Properties of the Twitch client\<close>

lemma log_line_fields [simp]:
  "requests (log_line l m w) = requests w"
  "persist_calls (log_line l m w) = persist_calls w"
  "file_writes (log_line l m w) = file_writes w"
  "config_file (log_line l m w) = config_file w"
  "token_endpoint (log_line l m w) = token_endpoint w"
  "validate_endpoint (log_line l m w) = validate_endpoint w"
  "chat_endpoint (log_line l m w) = chat_endpoint w"
  "write_results (log_line l m w) = write_results w"
  "logged (log_line l m w) = logged w @ [(l, m)]"
  by (simp_all add: log_line_def)

text \<open>
  Claim C6. When the token endpoint answers with a non-success status, or with a body
  that holds no access token, \<^verbatim>\<open>refreshToken\<close> throws, the client (its access token and
  refresh token among the rest) is as before, \<^verbatim>\<open>persistTokens\<close> is not called and nothing is
  written.
\<close>

theorem refresh_failure_changes_nothing:
  assumes "token_endpoint w = Resolved resp # rest"
    and "\<not> ok resp \<or> (\<forall>j. json resp = Some j \<longrightarrow> \<not> truthy (access_token j))"
  shows "\<exists>e w'. refreshToken_call c w = (Inl e, c, w') \<and>
           config_file w' = config_file w \<and>
           persist_calls w' = persist_calls w \<and>
           file_writes w' = file_writes w"
  using assms
  by (auto simp: refreshToken_call_def fetch_token_def Let_def
           split: option.splits)

text \<open>The endpoint refuses a revoked refresh token with status 400.\<close>

theorem refresh_failure_changes_nothing_witness:
  "token_endpoint (quiet_world\<lparr>token_endpoint :=
        [http_error 400 (Some \<lparr>access_token = None, refresh_token = None,
                                message = Some ''Invalid refresh token''\<rparr>) '''']\<rparr>)
     = [http_error 400 (Some \<lparr>access_token = None, refresh_token = None,
                                message = Some ''Invalid refresh token''\<rparr>) ''''] \<and>
   fst (refreshToken_call (new_TwitchClient bot_config ''bot1'')
          (quiet_world\<lparr>token_endpoint :=
             [http_error 400 (Some \<lparr>access_token = None, refresh_token = None,
                                     message = Some ''Invalid refresh token''\<rparr>) '''']\<rparr>))
     = Inl (TokenRefreshFailed 400) \<and>
   token (fst (snd (refreshToken_call (new_TwitchClient bot_config ''bot1'')
          (quiet_world\<lparr>token_endpoint :=
             [http_error 400 (Some \<lparr>access_token = None, refresh_token = None,
                                     message = Some ''Invalid refresh token''\<rparr>) '''']\<rparr>))))
     = ''token-0''"
  using refresh_failure_changes_nothing
    [of "quiet_world\<lparr>token_endpoint :=
             [http_error 400 (Some \<lparr>access_token = None, refresh_token = None,
                                     message = Some ''Invalid refresh token''\<rparr>) '''']\<rparr>"
        "\<lparr>ok = False, status = 400,
          json = Some \<lparr>access_token = None, refresh_token = None,
                       message = Some ''Invalid refresh token''\<rparr>, body_text = Some ''''\<rparr>"
        "[]" "new_TwitchClient bot_config ''bot1''"]
  by (simp add: refreshToken_call_def fetch_token_def quiet_world_def http_error_def
        new_TwitchClient_def bot_config_def)

lemma persistTokens_requests: "requests (persistTokens c w) = requests w"
  by (auto simp: persistTokens_def write_config_def Let_def
           split: option.splits list.splits prod.splits)

lemma refreshToken_call_requests:
  "requests (snd (snd (refreshToken_call c w)))
     = requests w @ [TokenPost (clientId (cfg c)) (clientSecret (cfg c)) (refreshToken (cfg c))]"
  by (auto simp: refreshToken_call_def fetch_token_def persistTokens_requests Let_def
           split: list.splits fetched.splits option.splits sum.splits prod.splits)

lemma refreshToken_call_keeps:
  "clientId (cfg (fst (snd (refreshToken_call c w)))) = clientId (cfg c)"
  "clientSecret (cfg (fst (snd (refreshToken_call c w)))) = clientSecret (cfg c)"
  by (auto simp: refreshToken_call_def fetch_token_def Let_def
           split: list.splits fetched.splits option.splits sum.splits prod.splits)

lemma validated_requests: "requests (snd (snd (validated c w))) = requests w"
  by (simp add: validated_def persistTokens_requests Let_def)

lemma fetch_validate_requests:
  "requests (snd (fetch_validate rq w)) = requests w @ [rq]"
  by (simp add: fetch_validate_def split: list.splits)

lemma validate_try_requests:
  assumes "validate_try c w = (Inr u, c1, w1)"
  shows "\<exists>post. requests w1 = requests w @ [ValidateGet (token c)] @ post \<and>
           (post = [] \<or>
            post = [TokenPost (clientId (cfg c)) (clientSecret (cfg c)) (refreshToken (cfg c)),
                    ValidateGet (token c1)])"
proof -
  obtain r wa where f: "fetch_validate (ValidateGet (token c)) w = (r, wa)"
    by (cases "fetch_validate (ValidateGet (token c)) w")
  have ra: "requests wa = requests w @ [ValidateGet (token c)]"
    using fetch_validate_requests[of "ValidateGet (token c)" w] f by simp
  show ?thesis
  proof (cases r)
    case Rejected
    then show ?thesis using assms f by (simp add: validate_try_def)
  next
    case (Resolved resp)
    show ?thesis
    proof (cases "ok resp")
      case True
      then obtain d where "json resp = Some d" "validated (c\<lparr>userId := user_id d\<rparr>) wa = (Inr u, c1, w1)"
        using assms f Resolved by (auto simp: validate_try_def split: option.splits)
      then have "requests w1 = requests wa"
        using validated_requests[of "c\<lparr>userId := user_id d\<rparr>" wa] by simp
      then show ?thesis using ra by simp
    next
      case False
      then obtain t where t: "body_text resp = Some t"
        using assms f Resolved by (auto simp: validate_try_def split: option.splits)
      let ?wb = "log_line ERR ''Token validation failed. Attempting refresh.'' wa"
      obtain e cb wc where rf: "refreshToken_call c ?wb = (e, cb, wc)"
        by (metis prod.collapse)
      have rc: "requests wc = requests wa @
          [TokenPost (clientId (cfg c)) (clientSecret (cfg c)) (refreshToken (cfg c))]"
        using refreshToken_call_requests[of c ?wb] rf by simp
      obtain r2 wd where f2: "fetch_validate (ValidateGet (token cb)) wc = (r2, wd)"
        by (cases "fetch_validate (ValidateGet (token cb)) wc")
      have rd: "requests wd = requests wc @ [ValidateGet (token cb)]"
        using fetch_validate_requests[of "ValidateGet (token cb)" wc] f2 by simp
      have "\<exists>d2::ValidateResp. validated (cb\<lparr>userId := user_id d2\<rparr>) wd = (Inr u, c1, w1)"
        using assms f Resolved False t rf f2
        by (auto simp: validate_try_def Let_def
                 split: option.splits sum.splits fetched.splits if_splits)
      then obtain d2 :: ValidateResp
        where v: "validated (cb\<lparr>userId := user_id d2\<rparr>) wd = (Inr u, c1, w1)"
        by blast
      have "requests w1 = requests wd"
        using validated_requests[of "cb\<lparr>userId := user_id d2\<rparr>" wd] v by simp
      moreover have "token c1 = token cb"
        using v by (auto simp: validated_def Let_def split: if_splits)
      ultimately show ?thesis using ra rc rd by simp
    qed
  qed
qed

lemma validateToken_requests:
  assumes "validateToken c w = (Inr u, c1, w1)"
  shows "\<exists>t1 post.
           requests w1 = requests w @
             (if token c = []
              then [TokenPost (clientId (cfg c)) (clientSecret (cfg c)) (refreshToken (cfg c))]
              else []) @ [ValidateGet t1] @ post \<and>
           (token c \<noteq> [] \<longrightarrow> t1 = token c) \<and>
           (post = [] \<or>
            (\<exists>rt. post = [TokenPost (clientId (cfg c)) (clientSecret (cfg c)) rt,
                          ValidateGet (token c1)]))"
proof (cases "token c = []")
  case False
  let ?w1 = "log_line INFO ''Validating token...'' w"
  obtain u' where "validate_try c ?w1 = (Inr u', c1, w1)"
    using assms False by (auto simp: validateToken_def Let_def split: prod.splits sum.splits)
  from validate_try_requests[OF this] show ?thesis using False by auto
next
  case True
  let ?w1 = "log_line WARN ''No token to validate. Attempting refresh first.''
               (log_line INFO ''Validating token...'' w)"
  obtain e ca wa where rf: "refreshToken_call c ?w1 = (e, ca, wa)" by (metis prod.collapse)
  have ra: "requests wa = requests w @
      [TokenPost (clientId (cfg c)) (clientSecret (cfg c)) (refreshToken (cfg c))]"
    using refreshToken_call_requests[of c ?w1] rf by simp
  have k: "clientId (cfg ca) = clientId (cfg c)" "clientSecret (cfg ca) = clientSecret (cfg c)"
    using refreshToken_call_keeps[of c ?w1] rf by simp_all
  obtain u' where "validate_try ca wa = (Inr u', c1, w1)"
    using assms True rf by (auto simp: validateToken_def Let_def split: prod.splits sum.splits)
  from validate_try_requests[OF this] show ?thesis using True ra k by auto
qed

lemma post_message_result:
  "\<exists>w'. post_message m c w = (Inr (), c, w') \<and>
         requests w' = requests w @
           [ChatPost (token c) (clientId (cfg c)) (channelUserId (cfg c)) (userId c) m] \<and>
         (\<exists>l s. logged w' = logged w @ [(l, s)] \<and> (l = ERR \<longleftrightarrow> \<not> chat_accepts w))"
  by (auto simp: post_message_def fetch_chat_def chat_accepts_def
           split: list.splits fetched.splits option.splits)

text \<open>
  Claim C1, as the code has it. With the bot's user identifier set, \<^verbatim>\<open>sendMessage\<close> does not
  throw whatever the chat endpoint does, leaves the client as it is, sends exactly one
  request, the chat message to the configured channel, and logs one line, an error line
  unless the endpoint accepted the message. With the identifier unset, \<^verbatim>\<open>validateToken\<close>
  runs first. When it returns, it has sent a token refresh if the client had no access
  token, then one introspection request, then possibly a second refresh followed by a
  second introspection, and nothing else; \<^verbatim>\<open>sendMessage\<close> then does not throw and sends the one
  chat message after them, or none if the identifier is still empty.
\<close>

theorem sendMessage_contained_once_identified:
  "(userId c \<noteq> [] \<longrightarrow>
      (\<exists>w'. sendMessage m c w = (Inr (), c, w') \<and>
            requests w' = requests w @
              [ChatPost (token c) (clientId (cfg c)) (channelUserId (cfg c)) (userId c) m] \<and>
            (\<exists>l s. logged w' = logged w @ [(l, s)] \<and> (l = ERR \<longleftrightarrow> \<not> chat_accepts w)))) \<and>
   (userId c = [] \<longrightarrow>
      (\<forall>c1 w1.
         validateToken c (log_line WARN ''Bot User ID not set. Validating token first.'' w)
           = (Inr (), c1, w1) \<longrightarrow>
         (\<exists>w' t1 post.
            sendMessage m c w = (Inr (), c1, w') \<and>
            requests w1 = requests w @
              (if token c = []
               then [TokenPost (clientId (cfg c)) (clientSecret (cfg c)) (refreshToken (cfg c))]
               else []) @ [ValidateGet t1] @ post \<and>
            (token c \<noteq> [] \<longrightarrow> t1 = token c) \<and>
            (post = [] \<or>
             (\<exists>rt. post = [TokenPost (clientId (cfg c)) (clientSecret (cfg c)) rt,
                           ValidateGet (token c1)])) \<and>
            requests w' = requests w1 @
              (if userId c1 = [] then []
               else [ChatPost (token c1) (clientId (cfg c1)) (channelUserId (cfg c1))
                       (userId c1) m]))))"
proof (intro conjI impI allI)
  assume "userId c \<noteq> []"
  then have "sendMessage m c w = post_message m c w" by (simp add: sendMessage_def)
  then show "\<exists>w'. sendMessage m c w = (Inr (), c, w') \<and>
            requests w' = requests w @
              [ChatPost (token c) (clientId (cfg c)) (channelUserId (cfg c)) (userId c) m] \<and>
            (\<exists>l s. logged w' = logged w @ [(l, s)] \<and> (l = ERR \<longleftrightarrow> \<not> chat_accepts w))"
    using post_message_result[of m c w] by simp
next
  fix c1 :: TwitchClient and w1 :: world
  let ?w0 = "log_line WARN ''Bot User ID not set. Validating token first.'' w"
  let ?pre = "if token c = []
               then [TokenPost (clientId (cfg c)) (clientSecret (cfg c)) (refreshToken (cfg c))]
               else []"
  let ?chat = "if userId c1 = [] then []
               else [ChatPost (token c1) (clientId (cfg c1)) (channelUserId (cfg c1))
                       (userId c1) m]"
  assume u: "userId c = []" and v: "validateToken c ?w0 = (Inr (), c1, w1)"
  obtain t1 post where r: "requests w1 = requests w @ ?pre @ [ValidateGet t1] @ post"
    and t: "token c \<noteq> [] \<longrightarrow> t1 = token c"
    and p: "post = [] \<or>
             (\<exists>rt. post = [TokenPost (clientId (cfg c)) (clientSecret (cfg c)) rt,
                           ValidateGet (token c1)])"
    using validateToken_requests[OF v] by auto
  have "\<exists>w'. sendMessage m c w = (Inr (), c1, w') \<and> requests w' = requests w1 @ ?chat"
  proof (cases "userId c1 = []")
    case True
    then show ?thesis using u v by (simp add: sendMessage_def)
  next
    case False
    then have "sendMessage m c w = post_message m c1 w1"
      using u v by (simp add: sendMessage_def)
    then show ?thesis using post_message_result[of m c1 w1] False by auto
  qed
  then obtain w' where s: "sendMessage m c w = (Inr (), c1, w')"
    and q: "requests w' = requests w1 @ ?chat" by blast
  show "\<exists>w' t1 post.
            sendMessage m c w = (Inr (), c1, w') \<and>
            requests w1 = requests w @ ?pre @ [ValidateGet t1] @ post \<and>
            (token c \<noteq> [] \<longrightarrow> t1 = token c) \<and>
            (post = [] \<or>
             (\<exists>rt. post = [TokenPost (clientId (cfg c)) (clientSecret (cfg c)) rt,
                           ValidateGet (token c1)])) \<and>
            requests w' = requests w1 @ ?chat"
    using s r t p q by blast
qed

text \<open>
  Claim C1 as stated fails: with the identifier unset, the access token rejected and the
  refresh token revoked, the exception of \<^verbatim>\<open>validateToken\<close> leaves \<^verbatim>\<open>sendMessage\<close>, after
  two requests neither of which is the chat message.
\<close>

theorem sendMessage_raises_counterexample:
  "userId unidentified_client = [] \<and>
   fst (sendMessage ''gm'' unidentified_client revoked_world) = Inl (TokenRefreshFailed 400) \<and>
   requests (snd (snd (sendMessage ''gm'' unidentified_client revoked_world)))
     = [ValidateGet ''token-0'', TokenPost ''client-1'' ''secret-1'' ''refresh-0'']"
  by (simp add: sendMessage_def validateToken_def validate_try_def refreshToken_call_def
        fetch_validate_def fetch_token_def unidentified_client_def revoked_world_def
        quiet_world_def http_error_def new_TwitchClient_def bot_config_def)

text \<open>
  A send that the network rejects, a send that validates first and then posts, and a send
  that has to refresh before it can validate.
\<close>

theorem sendMessage_contained_once_identified_witness:
  "userId identified_client \<noteq> [] \<and>
   fst (sendMessage ''gm'' identified_client quiet_world) = Inr () \<and>
   requests (snd (snd (sendMessage ''gm'' identified_client quiet_world)))
     = [ChatPost ''token-0'' ''client-1'' ''channel-9'' ''42'' ''gm''] \<and>
   userId unidentified_client = [] \<and>
   fst (sendMessage ''gm'' unidentified_client confirming_world) = Inr () \<and>
   requests (snd (snd (sendMessage ''gm'' unidentified_client confirming_world)))
     = [ValidateGet ''token-0'', ChatPost ''token-0'' ''client-1'' ''channel-9'' ''42'' ''gm''] \<and>
   userId blank_client = [] \<and> token blank_client = [] \<and>
   fst (sendMessage ''gm'' blank_client refreshing_world) = Inr () \<and>
   requests (snd (snd (sendMessage ''gm'' blank_client refreshing_world)))
     = [TokenPost ''client-1'' ''secret-1'' ''refresh-0'', ValidateGet ''token-1'',
        ChatPost ''token-1'' ''client-1'' ''channel-9'' ''42'' ''gm'']"
proof -
  let ?C = identified_client and ?U = unidentified_client and ?B = blank_client
  let ?V = "validateToken ?U
              (log_line WARN ''Bot User ID not set. Validating token first.'' confirming_world)"
  let ?W = "validateToken ?B
              (log_line WARN ''Bot User ID not set. Validating token first.'' refreshing_world)"
  have c: "userId ?C = ''42''" "token ?C = ''token-0''" "clientId (cfg ?C) = ''client-1''"
    "channelUserId (cfg ?C) = ''channel-9''"
    by (simp_all add: identified_client_def new_TwitchClient_def bot_config_def)
  then have ne: "userId ?C \<noteq> []" by simp
  from sendMessage_contained_once_identified[of ?C "''gm''" quiet_world, THEN conjunct1, THEN mp, OF ne]
  obtain w' where 1: "sendMessage ''gm'' ?C quiet_world = (Inr (), ?C, w')"
    and 2: "requests w' = requests quiet_world @
              [ChatPost (token ?C) (clientId (cfg ?C)) (channelUserId (cfg ?C)) (userId ?C) ''gm'']"
    by blast
  have q: "requests quiet_world = []" by (simp add: quiet_world_def)
  have a: "fst (sendMessage ''gm'' ?C quiet_world) = Inr ()"
    "requests (snd (snd (sendMessage ''gm'' ?C quiet_world)))
       = [ChatPost ''token-0'' ''client-1'' ''channel-9'' ''42'' ''gm'']"
    using 1 2 by (simp_all add: c q)
  have u: "userId ?U = []"
    by (simp add: unidentified_client_def new_TwitchClient_def bot_config_def)
  have v: "fst ?V = Inr ()" "userId (fst (snd ?V)) = ''42''" "token (fst (snd ?V)) = ''token-0''"
    "clientId (cfg (fst (snd ?V))) = ''client-1''" "channelUserId (cfg (fst (snd ?V))) = ''channel-9''"
    "requests (snd (snd ?V)) = [ValidateGet ''token-0'']"
    by (simp_all add: validateToken_def validate_try_def validated_def persistTokens_def
          write_config_def fetch_validate_def unidentified_client_def confirming_world_def
          quiet_world_def http_ok_def new_TwitchClient_def bot_config_def Let_def)
  have "?V = (Inr (), fst (snd ?V), snd (snd ?V))"
    using v(1) by (metis prod.collapse)
  from sendMessage_contained_once_identified[of ?U "''gm''" confirming_world, THEN conjunct2,
       THEN mp, OF u, THEN spec, THEN spec, THEN mp, OF this]
  obtain w'' where 3: "sendMessage ''gm'' ?U confirming_world = (Inr (), fst (snd ?V), w'')"
    and 4: "requests w'' = requests (snd (snd ?V)) @
                 (if userId (fst (snd ?V)) = [] then []
                  else [ChatPost (token (fst (snd ?V))) (clientId (cfg (fst (snd ?V))))
                          (channelUserId (cfg (fst (snd ?V)))) (userId (fst (snd ?V))) ''gm''])"
    by blast
  have b: "fst (sendMessage ''gm'' ?U confirming_world) = Inr ()"
    "requests (snd (snd (sendMessage ''gm'' ?U confirming_world)))
       = [ValidateGet ''token-0'', ChatPost ''token-0'' ''client-1'' ''channel-9'' ''42'' ''gm'']"
    using 3 4 by (simp_all add: v)
  have ub: "userId ?B = []" "token ?B = []"
    by (simp_all add: blank_client_def new_TwitchClient_def bot_config_def)
  have x: "fst ?W = Inr ()" "userId (fst (snd ?W)) = ''42''" "token (fst (snd ?W)) = ''token-1''"
    "clientId (cfg (fst (snd ?W))) = ''client-1''" "channelUserId (cfg (fst (snd ?W))) = ''channel-9''"
    "requests (snd (snd ?W))
       = [TokenPost ''client-1'' ''secret-1'' ''refresh-0'', ValidateGet ''token-1'']"
    by (simp_all add: validateToken_def validate_try_def validated_def refreshToken_call_def
          persistTokens_def write_config_def fetch_validate_def fetch_token_def blank_client_def
          refreshing_world_def quiet_world_def http_ok_def new_TwitchClient_def bot_config_def
          Let_def)
  have "?W = (Inr (), fst (snd ?W), snd (snd ?W))"
    using x(1) by (metis prod.collapse)
  from sendMessage_contained_once_identified[of ?B "''gm''" refreshing_world, THEN conjunct2,
       THEN mp, OF ub(1), THEN spec, THEN spec, THEN mp, OF this]
  obtain w3 where 5: "sendMessage ''gm'' ?B refreshing_world = (Inr (), fst (snd ?W), w3)"
    and 6: "requests w3 = requests (snd (snd ?W)) @
                 (if userId (fst (snd ?W)) = [] then []
                  else [ChatPost (token (fst (snd ?W))) (clientId (cfg (fst (snd ?W))))
                          (channelUserId (cfg (fst (snd ?W)))) (userId (fst (snd ?W))) ''gm''])"
    by blast
  have d: "fst (sendMessage ''gm'' ?B refreshing_world) = Inr ()"
    "requests (snd (snd (sendMessage ''gm'' ?B refreshing_world)))
       = [TokenPost ''client-1'' ''secret-1'' ''refresh-0'', ValidateGet ''token-1'',
          ChatPost ''token-1'' ''client-1'' ''channel-9'' ''42'' ''gm'']"
    using 5 6 by (simp_all add: x)
  show ?thesis using ne a u b ub d by (intro conjI)
qed

lemma persistTokens_counts:
  "persist_calls (persistTokens c w) = persist_calls w + 1"
  "file_writes (persistTokens c w) = file_writes w + (if config_file w \<noteq> None then 1 else 0)"
  by (auto simp: persistTokens_def write_config_def Let_def
           split: option.splits list.splits prod.splits)

lemma validated_result:
  "\<exists>w'. validated c w
          = (Inr (), c\<lparr>cfg := (cfg c)\<lparr>botUserId := Some (userId c)\<rparr>\<rparr>, w') \<and>
        persist_calls w' = persist_calls w + (if botUserId (cfg c) \<noteq> Some (userId c) then 1 else 0) \<and>
        file_writes w' = file_writes w +
          (if botUserId (cfg c) \<noteq> Some (userId c) \<and> config_file w \<noteq> None then 1 else 0)"
  by (cases "botUserId (cfg c) = Some (userId c)")
     (simp_all add: validated_def persistTokens_counts Let_def)

text \<open>
  Claim C7, as the code has it. A \<^verbatim>\<open>validateToken\<close> call that starts with an access token
  and whose first introspection request succeeds returns with the identifier the
  endpoint gave; \<^verbatim>\<open>persistTokens\<close> is called exactly once if that identifier differs from the
  configured one (or none was configured) and not at all if it is the same. The file is
  written as often, provided the document can be read.
\<close>

theorem validation_persists_iff_identifier_differs:
  assumes "token c \<noteq> []"
    and "validate_endpoint w = Resolved resp # rest"
    and "ok resp"
    and "json resp = Some data"
  shows "\<exists>c' w'. validateToken c w = (Inr (), c', w') \<and>
           userId c' = user_id data \<and>
           botUserId (cfg c') = Some (user_id data) \<and>
           persist_calls w' = persist_calls w +
             (if botUserId (cfg c) \<noteq> Some (user_id data) then 1 else 0) \<and>
           file_writes w' = file_writes w +
             (if botUserId (cfg c) \<noteq> Some (user_id data) \<and> config_file w \<noteq> None then 1 else 0)"
proof -
  let ?w1 = "log_line INFO ''Validating token...'' w"
  let ?w2 = "?w1\<lparr>validate_endpoint := rest, requests := requests ?w1 @ [ValidateGet (token c)]\<rparr>"
  let ?c1 = "c\<lparr>userId := user_id data\<rparr>"
  have t: "validate_try c ?w1 = validated ?c1 ?w2"
    using assms by (simp add: validate_try_def fetch_validate_def)
  obtain w' where r: "validated ?c1 ?w2
          = (Inr (), ?c1\<lparr>cfg := (cfg ?c1)\<lparr>botUserId := Some (userId ?c1)\<rparr>\<rparr>, w')"
    and p: "persist_calls w' = persist_calls ?w2 +
              (if botUserId (cfg ?c1) \<noteq> Some (userId ?c1) then 1 else 0)"
    and f: "file_writes w' = file_writes ?w2 +
          (if botUserId (cfg ?c1) \<noteq> Some (userId ?c1) \<and> config_file ?w2 \<noteq> None then 1 else 0)"
    using validated_result[of ?c1 ?w2] by blast
  have "validateToken c w
          = (Inr (), ?c1\<lparr>cfg := (cfg ?c1)\<lparr>botUserId := Some (userId ?c1)\<rparr>\<rparr>, w')"
    using assms(1) t r by (simp add: validateToken_def Let_def)
  moreover have "persist_calls w' = persist_calls w +
             (if botUserId (cfg c) \<noteq> Some (user_id data) then 1 else 0)"
    using p by simp
  moreover have "file_writes w' = file_writes w +
             (if botUserId (cfg c) \<noteq> Some (user_id data) \<and> config_file w \<noteq> None then 1 else 0)"
    using f by simp
  ultimately show ?thesis by simp
qed

text \<open>
  Claim C7 as stated fails for a call that starts without an access token: the refresh
  that \<^verbatim>\<open>validateToken\<close> makes first persists the new token, so one write happens although
  the identifier returned is the configured one.
\<close>

theorem validation_after_refresh_writes_counterexample:
  "token tokenless_client = [] \<and>
   botUserId (cfg tokenless_client) = Some ''42'' \<and>
   fst (validateToken tokenless_client refreshing_world) = Inr () \<and>
   userId (fst (snd (validateToken tokenless_client refreshing_world))) = ''42'' \<and>
   requests (snd (snd (validateToken tokenless_client refreshing_world)))
     = [TokenPost ''client-1'' ''secret-1'' ''refresh-0'', ValidateGet ''token-1''] \<and>
   persist_calls refreshing_world = 0 \<and>
   persist_calls (snd (snd (validateToken tokenless_client refreshing_world))) = 1 \<and>
   file_writes (snd (snd (validateToken tokenless_client refreshing_world))) = 1"
  by (simp add: validateToken_def validate_try_def validated_def refreshToken_call_def
        persistTokens_def write_config_def fetch_validate_def fetch_token_def
        tokenless_client_def refreshing_world_def quiet_world_def http_ok_def
        new_TwitchClient_def bot_config_def Let_def)

text \<open>The same answer for a client that knows its identifier and for one that does not.\<close>

theorem validation_persists_iff_identifier_differs_witness:
  "token identified_client \<noteq> [] \<and>
   validate_endpoint confirming_world = [http_ok \<lparr>user_id = ''42''\<rparr>] \<and>
   botUserId (cfg identified_client) = Some ''42'' \<and>
   persist_calls (snd (snd (validateToken identified_client confirming_world))) = 0 \<and>
   file_writes (snd (snd (validateToken identified_client confirming_world))) = 0 \<and>
   token unidentified_client \<noteq> [] \<and>
   botUserId (cfg unidentified_client) = None \<and>
   persist_calls (snd (snd (validateToken unidentified_client confirming_world))) = 1 \<and>
   file_writes (snd (snd (validateToken unidentified_client confirming_world))) = 1"
proof -
  let ?resp = "\<lparr>ok = True, status = 200, json = Some \<lparr>user_id = ''42''\<rparr>, body_text = None\<rparr>"
  have e: "validate_endpoint confirming_world = Resolved ?resp # []"
    and e': "validate_endpoint confirming_world = [http_ok \<lparr>user_id = ''42''\<rparr>]"
    and z: "persist_calls confirming_world = 0" "file_writes confirming_world = 0"
      "config_file confirming_world \<noteq> None"
    by (simp_all add: confirming_world_def quiet_world_def http_ok_def)
  have k: "ok ?resp" and j: "json ?resp = Some \<lparr>user_id = ''42''\<rparr>" by simp_all
  have ti: "token identified_client \<noteq> []" and bi: "botUserId (cfg identified_client) = Some ''42''"
    by (simp_all add: identified_client_def new_TwitchClient_def bot_config_def)
  have tu: "token unidentified_client \<noteq> []" and bu: "botUserId (cfg unidentified_client) = None"
    by (simp_all add: unidentified_client_def new_TwitchClient_def bot_config_def)
  from validation_persists_iff_identifier_differs[OF ti e k j]
  have 1: "persist_calls (snd (snd (validateToken identified_client confirming_world))) = 0"
    "file_writes (snd (snd (validateToken identified_client confirming_world))) = 0"
    using bi z by auto
  from validation_persists_iff_identifier_differs[OF tu e k j]
  have 2: "persist_calls (snd (snd (validateToken unidentified_client confirming_world))) = 1"
    "file_writes (snd (snd (validateToken unidentified_client confirming_world))) = 1"
    using bu z by auto
  show ?thesis using ti e' bi 1 tu bu 2 by (intro conjI)
qed

lemma no_market_request_refl: "no_market_request w w"
  by (simp add: no_market_request_def)

lemma no_market_request_trans:
  "no_market_request w w1 \<Longrightarrow> no_market_request w1 w2 \<Longrightarrow> no_market_request w w2"
  by (auto simp: no_market_request_def)

lemma no_market_request_eq:
  "requests w' = requests w \<Longrightarrow> no_market_request w w'"
  by (simp add: no_market_request_def)

lemma refreshToken_call_no_market:
  "no_market_request w (snd (snd (refreshToken_call c w)))"
  by (simp add: no_market_request_def refreshToken_call_requests)

lemma validate_try_no_market:
  "no_market_request w (snd (snd (validate_try c w)))"
proof -
  obtain r wa where f: "fetch_validate (ValidateGet (token c)) w = (r, wa)"
    by (cases "fetch_validate (ValidateGet (token c)) w")
  have a: "no_market_request w wa"
    using fetch_validate_requests[of "ValidateGet (token c)" w] f
    by (simp add: no_market_request_def)
  let ?wb = "log_line ERR ''Token validation failed. Attempting refresh.'' wa"
  obtain e cb wc where rf: "refreshToken_call c ?wb = (e, cb, wc)" by (metis prod.collapse)
  have c: "no_market_request wa wc"
    using refreshToken_call_requests[of c ?wb] rf by (simp add: no_market_request_def)
  obtain r2 wd where f2: "fetch_validate (ValidateGet (token cb)) wc = (r2, wd)"
    by (cases "fetch_validate (ValidateGet (token cb)) wc")
  have d: "no_market_request wc wd"
    using fetch_validate_requests[of "ValidateGet (token cb)" wc] f2
    by (simp add: no_market_request_def)
  have v: "no_market_request x (snd (snd (validated y x)))" for x y
    by (simp add: no_market_request_def validated_requests)
  note t = no_market_request_trans
  have wc: "no_market_request w wc" using a c by (rule t)
  have wd: "no_market_request w wd" using wc d by (rule t)
  have "snd (snd (validate_try c w)) = wa \<or> snd (snd (validate_try c w)) = wc \<or>
        snd (snd (validate_try c w)) = wd \<or>
        (\<exists>y. snd (snd (validate_try c w)) = snd (snd (validated y wa))) \<or>
        (\<exists>y. snd (snd (validate_try c w)) = snd (snd (validated y wd)))"
    using f rf f2
    by (auto simp: validate_try_def Let_def
             split: fetched.splits option.splits sum.splits prod.splits)
  then show ?thesis using a wc wd t[OF a v] t[OF wd v] by auto
qed

lemma validateToken_no_market:
  "no_market_request w (snd (snd (validateToken c w)))"
proof -
  let ?w1 = "log_line INFO ''Validating token...'' w"
  let ?w2 = "log_line WARN ''No token to validate. Attempting refresh first.'' ?w1"
  note t = no_market_request_trans
  have l: "no_market_request x (log_line a b x)" for a b x
    by (simp add: no_market_request_def)
  have r: "no_market_request w (snd (snd (refreshToken_call c ?w2)))"
    using t[OF t[OF l l] refreshToken_call_no_market] .
  have v1: "no_market_request w (snd (snd (validate_try y ?w1)))" for y
    using t[OF l validate_try_no_market] .
  have v2: "no_market_request w (snd (snd (validate_try y (snd (snd (refreshToken_call c ?w2))))))" for y
    using t[OF r validate_try_no_market] .
  have "snd (snd (validateToken c w)) = snd (snd (refreshToken_call c ?w2)) \<or>
        (\<exists>y x. (x = snd (snd (validate_try y ?w1)) \<or>
                x = snd (snd (validate_try y (snd (snd (refreshToken_call c ?w2)))))) \<and>
              (snd (snd (validateToken c w)) = x \<or>
               snd (snd (validateToken c w)) = log_line ERR ''Token validation/refresh error'' x))"
    by (auto simp: validateToken_def Let_def split: sum.splits prod.splits)
       (metis snd_conv)+
  then show ?thesis using r v1 v2 t[OF v1 l] t[OF v2 l] by auto
qed

lemma post_message_no_market:
  "no_market_request w (snd (snd (post_message m c w)))"
  using post_message_result[of m c w] by (auto simp: no_market_request_def)

lemma sendMessage_no_market:
  "no_market_request w (snd (snd (sendMessage m c w)))"
proof -
  let ?w0 = "log_line WARN ''Bot User ID not set. Validating token first.'' w"
  note t = no_market_request_trans
  have l: "no_market_request x (log_line a b x)" for a b x
    by (simp add: no_market_request_def)
  have v: "no_market_request w (snd (snd (validateToken c ?w0)))"
    using t[OF l validateToken_no_market] .
  have "snd (snd (sendMessage m c w)) = snd (snd (post_message m c w)) \<or>
        snd (snd (sendMessage m c w)) = snd (snd (validateToken c ?w0)) \<or>
        (\<exists>a b. snd (snd (sendMessage m c w)) = log_line a b (snd (snd (validateToken c ?w0)))) \<or>
        (\<exists>y. snd (snd (sendMessage m c w))
               = snd (snd (post_message m y (snd (snd (validateToken c ?w0))))))"
    by (auto simp: sendMessage_def split: sum.splits prod.splits)
  then show ?thesis
    using post_message_no_market v t[OF v l] t[OF v post_message_no_market] by auto
qed

section \<open>Properties of the posting loop\<close>

lemma refreshDexScreenerTokens_keeps:
  assumes "refreshDexScreenerTokens st w = (st', w')"
  shows "useDexScreenerNext st' = useDexScreenerNext st" "bots st' = bots st"
    "pending st' = pending st" "cycles st' = cycles st"
  using assms
  by (auto simp: refreshDexScreenerTokens_def Let_def split: prod.splits if_splits)

lemma select_token_keeps:
  assumes "select_token st w = ((tokenInfo, consulted), st', w')"
  shows "useDexScreenerNext st' = useDexScreenerNext st" "bots st' = bots st"
    "pending st' = pending st" "cycles st' = cycles st"
  using assms
  by (auto simp: select_token_def Let_def
           split: prod.splits if_splits option.splits
           dest: refreshDexScreenerTokens_keeps)

lemma select_token_events:
  assumes "select_token st w = ((tokenInfo, consulted), st', w')"
  shows "consulted \<noteq> [] \<and>
         hd consulted = Consult (if useDexScreenerNext st then DexScreenerStore else CoinGecko) \<and>
         Toggle \<notin> set consulted"
  using assms
  by (auto simp: select_token_def Let_def
           split: prod.splits if_splits option.splits)

lemma try_block_result:
  assumes "try_block st w = (res, evs, st', w')"
  shows "useDexScreenerNext st' = (\<not> useDexScreenerNext st)"
    "pending st' = pending st" "cycles st' = cycles st"
    "count_list evs Toggle = 1"
    "hd evs = Consult (if useDexScreenerNext st then DexScreenerStore else CoinGecko)"
proof -
  obtain waitTime w0 where r: "next_random w = (waitTime, w0)" by (cases "next_random w")
  obtain tokenInfo consulted st1 w2
    where s: "select_token st (log_line INFO ''Next question in ... minutes.'' w0)
                = ((tokenInfo, consulted), st1, w2)"
    by (metis prod.collapse)
  note k = select_token_keeps[OF s] and e = select_token_events[OF s]
  have c: "count_list consulted Toggle = 0" using e by (simp add: count_list_0_iff)
  have evs: "evs = consulted @ [Toggle, Render] \<or> (\<exists>i. evs = consulted @ [Toggle, Render, Post i])"
    using assms r s
    by (auto simp: try_block_def Let_def split: prod.splits sum.splits option.splits if_splits)
  show "useDexScreenerNext st' = (\<not> useDexScreenerNext st)"
    using assms r s k
    by (auto simp: try_block_def Let_def split: prod.splits sum.splits option.splits if_splits)
  show "pending st' = pending st"
    using assms r s k
    by (auto simp: try_block_def Let_def split: prod.splits sum.splits option.splits if_splits)
  show "cycles st' = cycles st"
    using assms r s k
    by (auto simp: try_block_def Let_def split: prod.splits sum.splits option.splits if_splits)
  show "count_list evs Toggle = 1" using evs c by auto
  show "hd evs = Consult (if useDexScreenerNext st then DexScreenerStore else CoinGecko)"
    using evs e by auto
qed

lemma questionLoop_result:
  assumes "questionLoop st w = (evs, st', w')"
  shows "useDexScreenerNext st' = (\<not> useDexScreenerNext st)"
    "pending st' = pending st + 1" "cycles st' = cycles st + 1"
    "count_list evs Toggle = 1"
    "hd evs = Consult (if useDexScreenerNext st then DexScreenerStore else CoinGecko)"
proof -
  obtain res evs1 st1 w1
    where t: "try_block (st\<lparr>cycles := cycles st + 1\<rparr>) w = (res, evs1, st1, w1)"
    by (metis prod.collapse)
  have q: "evs = evs1" "st' = st1\<lparr>pending := pending st1 + 1\<rparr>"
    using assms t by (simp_all add: questionLoop_def)
  note b = try_block_result[OF t]
  show "useDexScreenerNext st' = (\<not> useDexScreenerNext st)" using q b(1) by simp
  show "pending st' = pending st + 1" using q b(2) by simp
  show "cycles st' = cycles st + 1" using q b(3) by simp
  show "count_list evs Toggle = 1" using q b(4) by simp
  show "hd evs = Consult (if useDexScreenerNext st then DexScreenerStore else CoinGecko)"
    using q b(5) by simp
qed

lemma event_loop_runs:
  "0 < pending st \<Longrightarrow>
   length (fst (event_loop n st w)) = n \<and>
   cycles (fst (snd (event_loop n st w))) = cycles st + n \<and>
   pending (fst (snd (event_loop n st w))) = pending st"
proof (induction n arbitrary: st w)
  case 0
  then show ?case by simp
next
  case (Suc n)
  let ?st0 = "st\<lparr>pending := pending st - 1\<rparr>"
  obtain evs st1 w1 where q: "questionLoop ?st0 w = (evs, st1, w1)"
    by (metis prod.collapse)
  note r = questionLoop_result[OF q]
  have p1: "pending st1 = pending st" using r(2) Suc.prems by simp
  have c1: "cycles st1 = cycles st + 1" using r(3) by simp
  have ih: "length (fst (event_loop n st1 w1)) = n \<and>
     cycles (fst (snd (event_loop n st1 w1))) = cycles st1 + n \<and>
     pending (fst (snd (event_loop n st1 w1))) = pending st1"
    using Suc.IH[of st1 w1] p1 Suc.prems by simp
  have "event_loop (Suc n) st w
          = (evs # fst (event_loop n st1 w1), snd (event_loop n st1 w1))"
    using Suc.prems q by (simp add: split_def Let_def)
  then show ?case using ih p1 c1 by simp
qed

text \<open>
  Claim C2. Every call of \<^verbatim>\<open>questionLoop\<close> adds one pending call, whatever the sources, the
  question service and \<^verbatim>\<open>sendMessage\<close> do, an exception in the \<^verbatim>\<open>try\<close> block included. So
  with a call pending, \<open>n\<close> turns of the event loop run \<open>n\<close> cycles and leave a call pending.
\<close>

theorem next_cycle_always_scheduled:
  "pending (fst (snd (questionLoop st w))) = pending st + 1 \<and>
   (0 < pending st \<longrightarrow>
      length (fst (event_loop n st w)) = n \<and>
      cycles (fst (snd (event_loop n st w))) = cycles st + n \<and>
      0 < pending (fst (snd (event_loop n st w))))"
proof -
  have "questionLoop st w
          = (fst (questionLoop st w), fst (snd (questionLoop st w)), snd (snd (questionLoop st w)))"
    by simp
  then have "pending (fst (snd (questionLoop st w))) = pending st + 1"
    by (rule questionLoop_result(2))
  then show ?thesis using event_loop_runs[of st n w] by simp
qed

lemma failing_cycle:
  "fst (try_block (idle_scheduler\<lparr>pending := 0, cycles := 1\<rparr>) failing_world) = Inl QuestionError"
  "fst (questionLoop idle_scheduler failing_world)
     = [Consult CoinGecko, Consult DexScreenerStore, Toggle, Render]"
  "logged (snd (snd (questionLoop (idle_scheduler\<lparr>pending := 0\<rparr>) failing_world)))
     = [(INFO, ''Next question in ... minutes.''), (ERR, ''[MainLoop] Error'')]"
  by (simp_all add: questionLoop_def try_block_def select_token_def pick_symbol_def
        getTrendingCoinGeckoSymbols_def fetch_coingecko_def getNextContractAddress_def
        getFormattedQuestion_def next_random_def idle_scheduler_def failing_world_def
        quiet_world_def new_TokenStoreService_def log_line_def Let_def)

text \<open>Two turns, the first of which ends in an exception of the question service.\<close>

theorem next_cycle_always_scheduled_witness:
  "0 < pending idle_scheduler \<and>
   fst (try_block (idle_scheduler\<lparr>pending := 0, cycles := 1\<rparr>) failing_world) = Inl QuestionError \<and>
   length (fst (event_loop 2 idle_scheduler failing_world)) = 2 \<and>
   cycles (fst (snd (event_loop 2 idle_scheduler failing_world))) = 2 \<and>
   0 < pending (fst (snd (event_loop 2 idle_scheduler failing_world)))"
proof -
  have p: "0 < pending idle_scheduler" by (simp add: idle_scheduler_def)
  have c: "cycles idle_scheduler = 0" by (simp add: idle_scheduler_def)
  from next_cycle_always_scheduled[of idle_scheduler failing_world 2, THEN conjunct2, THEN mp, OF p]
  show ?thesis using p c failing_cycle(1) by simp
qed

lemma getTrendingCoinGeckoSymbols_requests:
  "requests (snd (getTrendingCoinGeckoSymbols w)) = requests w @ [CoinGeckoGet]"
  by (auto simp: getTrendingCoinGeckoSymbols_def fetch_coingecko_def Let_def
           split: list.splits fetched.splits option.splits)

lemma getTrendingCoinGeckoSymbols_endpoint:
  "coingecko_endpoint w' = coingecko_endpoint w \<Longrightarrow>
   fst (getTrendingCoinGeckoSymbols w') = fst (getTrendingCoinGeckoSymbols w)"
  by (auto simp: getTrendingCoinGeckoSymbols_def fetch_coingecko_def Let_def
           split: list.splits fetched.splits option.splits)

lemma random_index_keeps:
  "requests (snd (random_index n w)) = requests w"
  "n > 0 \<Longrightarrow> fst (random_index n w) < n"
  by (auto simp: random_index_def next_random_def Let_def split: list.splits)

lemma pick_symbol_result:
  "requests (snd (pick_symbol w)) = requests w @ [CoinGeckoGet]"
  "fst (getTrendingCoinGeckoSymbols w) = [] \<Longrightarrow> fst (pick_symbol w) = None"
  "fst (getTrendingCoinGeckoSymbols w) \<noteq> [] \<Longrightarrow>
     \<exists>i<length (fst (getTrendingCoinGeckoSymbols w)).
       fst (pick_symbol w)
         = Some \<lparr>token_identifier = fst (getTrendingCoinGeckoSymbols w) ! i,
                  identifier_type = ticker\<rparr>"
proof -
  obtain cg w1 where g: "getTrendingCoinGeckoSymbols w = (cg, w1)"
    by (cases "getTrendingCoinGeckoSymbols w")
  have r1: "requests w1 = requests w @ [CoinGeckoGet]"
    using getTrendingCoinGeckoSymbols_requests[of w] g by simp
  show "requests (snd (pick_symbol w)) = requests w @ [CoinGeckoGet]"
    using g r1 random_index_keeps(1)[of "length cg" w1]
    by (simp add: pick_symbol_def Let_def split_def)
  show "fst (getTrendingCoinGeckoSymbols w) = [] \<Longrightarrow> fst (pick_symbol w) = None"
    using g by (simp add: pick_symbol_def)
  show "fst (getTrendingCoinGeckoSymbols w) \<noteq> [] \<Longrightarrow>
     \<exists>i<length (fst (getTrendingCoinGeckoSymbols w)).
       fst (pick_symbol w)
         = Some \<lparr>token_identifier = fst (getTrendingCoinGeckoSymbols w) ! i,
                  identifier_type = ticker\<rparr>"
    using g random_index_keeps(2)[of "length cg" w1]
    by (auto simp: pick_symbol_def Let_def split_def)
qed

lemma select_token_coingecko_first:
  assumes "\<not> useDexScreenerNext st"
  shows "requests (snd (snd (select_token st w))) = requests w @ [CoinGeckoGet]"
    and "fst (getTrendingCoinGeckoSymbols w) \<noteq> [] \<Longrightarrow>
           tokenStoreService (fst (snd (select_token st w))) = tokenStoreService st \<and>
           (\<exists>i<length (fst (getTrendingCoinGeckoSymbols w)).
              fst (fst (select_token st w))
                = Some \<lparr>token_identifier = fst (getTrendingCoinGeckoSymbols w) ! i,
                         identifier_type = ticker\<rparr>)"
proof -
  obtain t w1 where p: "pick_symbol w = (t, w1)" by (cases "pick_symbol w")
  have r: "requests w1 = requests w @ [CoinGeckoGet]"
    using pick_symbol_result(1)[of w] p by simp
  show "requests (snd (snd (select_token st w))) = requests w @ [CoinGeckoGet]"
    using assms p r by (auto simp: select_token_def Let_def split: option.splits prod.splits)
  assume ne: "fst (getTrendingCoinGeckoSymbols w) \<noteq> []"
  then obtain i where i: "i < length (fst (getTrendingCoinGeckoSymbols w))"
    and ti: "t = Some \<lparr>token_identifier = fst (getTrendingCoinGeckoSymbols w) ! i,
                         identifier_type = ticker\<rparr>"
    using pick_symbol_result(3)[OF ne] p by auto
  have "select_token st w = ((t, [Consult CoinGecko]), st, w1)"
    using assms p ti by (simp add: select_token_def)
  then show "tokenStoreService (fst (snd (select_token st w))) = tokenStoreService st \<and>
           (\<exists>i<length (fst (getTrendingCoinGeckoSymbols w)).
              fst (fst (select_token st w))
                = Some \<lparr>token_identifier = fst (getTrendingCoinGeckoSymbols w) ! i,
                         identifier_type = ticker\<rparr>)"
    using i ti by auto
qed

lemma select_token_store_first:
  assumes "useDexScreenerNext st"
    and "fst (getNextContractAddress (tokenStoreService st)) = Some a" and "a \<noteq> []"
  shows "select_token st w
           = ((Some \<lparr>token_identifier = a, identifier_type = address\<rparr>, [Consult DexScreenerStore]),
              st\<lparr>tokenStoreService := snd (getNextContractAddress (tokenStoreService st))\<rparr>, w)"
  using assms by (simp add: select_token_def Let_def split_def)

lemma after_selection:
  assumes "select_token st (log_line INFO ''Next question in ... minutes.'' (snd (next_random w)))
             = (sel, st1, w2)"
  shows "tokenStoreService (fst (snd (questionLoop st w))) = tokenStoreService st1"
    and "no_market_request w2 (snd (snd (questionLoop st w)))"
proof -
  let ?st0 = "st\<lparr>cycles := cycles st + 1\<rparr>"
  let ?w1 = "log_line INFO ''Next question in ... minutes.'' (snd (next_random w))"
  have sel0: "select_token ?st0 ?w1 = (sel, st1\<lparr>cycles := cycles st + 1\<rparr>, w2)"
    using assms
    by (auto simp: select_token_def refreshDexScreenerTokens_def Let_def split_def
             split: if_splits option.splits)
  note t = no_market_request_trans
  have l: "no_market_request x (log_line a b x)" for a b x
    by (simp add: no_market_request_def)
  have g: "no_market_request x (snd (getFormattedQuestion ti x))" for ti x
    by (simp add: no_market_request_def getFormattedQuestion_def split: list.splits)
  have ri: "no_market_request x (snd (random_index n x))" for n x
    by (simp add: no_market_request_def random_index_keeps)
  have s: "no_market_request x (snd (snd (sendMessage m c (log_line a b (snd (random_index n x))))))"
    for x m c a b n
    using t[OF t[OF ri l] sendMessage_no_market] .
  obtain res evs st' w' where tb: "try_block ?st0 w = (res, evs, st', w')"
    by (metis prod.collapse)
  let ?w3 = "snd (getFormattedQuestion (fst sel) w2)"
  have g2: "no_market_request w2 ?w3" by (rule g)
  have gl: "no_market_request w2 (log_line a b ?w3)" for a b
    using t[OF g2 l] .
  have gs: "no_market_request w2
              (snd (snd (sendMessage m c (log_line a b (snd (random_index n ?w3))))))"
    for m c a b n
    using t[OF g2 s] .
  have "tokenStoreService st' = tokenStoreService st1 \<and> no_market_request w2 w'"
    using tb sel0 g2 gl gs
    by (auto simp: try_block_def Let_def split_def
             split: sum.splits option.splits if_splits)
  moreover have "snd (snd (questionLoop st w)) = w' \<or>
                 snd (snd (questionLoop st w)) = log_line ERR ''[MainLoop] Error'' w'"
    and "tokenStoreService (fst (snd (questionLoop st w))) = tokenStoreService st'"
    using tb by (auto simp: questionLoop_def split: sum.splits)
  ultimately show "tokenStoreService (fst (snd (questionLoop st w))) = tokenStoreService st1"
    and "no_market_request w2 (snd (snd (questionLoop st w)))"
    using t[OF _ l] by auto
qed

lemma next_random_keeps:
  "requests (snd (next_random w)) = requests w"
  "coingecko_endpoint (snd (next_random w)) = coingecko_endpoint w"
  by (simp_all add: next_random_def split: list.splits)

lemma cycle_coingecko_first:
  assumes "\<not> useDexScreenerNext st"
  shows "\<exists>rs. requests (snd (snd (questionLoop st w))) = requests w @ CoinGeckoGet # rs"
    and "fst (getTrendingCoinGeckoSymbols w) \<noteq> [] \<Longrightarrow>
           tokenStoreService (fst (snd (questionLoop st w))) = tokenStoreService st"
proof -
  let ?w1 = "log_line INFO ''Next question in ... minutes.'' (snd (next_random w))"
  obtain sel st1 w2 where s: "select_token st ?w1 = (sel, st1, w2)" by (metis prod.collapse)
  have e: "fst (getTrendingCoinGeckoSymbols ?w1) = fst (getTrendingCoinGeckoSymbols w)"
    by (rule getTrendingCoinGeckoSymbols_endpoint) (simp add: log_line_def next_random_keeps)
  have "requests w2 = requests ?w1 @ [CoinGeckoGet]"
    using select_token_coingecko_first(1)[OF assms, of ?w1] s by simp
  then have r: "requests w2 = requests w @ [CoinGeckoGet]"
    by (simp add: next_random_keeps)
  from after_selection(2)[OF s] obtain rs
    where "requests (snd (snd (questionLoop st w))) = requests w2 @ rs"
    by (auto simp: no_market_request_def)
  then show "\<exists>rs. requests (snd (snd (questionLoop st w))) = requests w @ CoinGeckoGet # rs"
    using r by simp
  assume "fst (getTrendingCoinGeckoSymbols w) \<noteq> []"
  then have "tokenStoreService st1 = tokenStoreService st"
    using select_token_coingecko_first(2)[OF assms, of ?w1] s e by simp
  then show "tokenStoreService (fst (snd (questionLoop st w))) = tokenStoreService st"
    using after_selection(1)[OF s] by simp
qed

lemma cycle_store_first:
  assumes "useDexScreenerNext st"
    and "truthy (fst (getNextContractAddress (tokenStoreService st)))"
  shows "tokenStoreService (fst (snd (questionLoop st w)))
           = snd (getNextContractAddress (tokenStoreService st))"
    and "no_market_request w (snd (snd (questionLoop st w)))"
proof -
  let ?w1 = "log_line INFO ''Next question in ... minutes.'' (snd (next_random w))"
  obtain a where a: "fst (getNextContractAddress (tokenStoreService st)) = Some a" "a \<noteq> []"
    using assms(2) by (cases "fst (getNextContractAddress (tokenStoreService st))") auto
  note s = select_token_store_first[OF assms(1) a, of ?w1]
  show "tokenStoreService (fst (snd (questionLoop st w)))
           = snd (getNextContractAddress (tokenStoreService st))"
    using after_selection(1)[OF s] by simp
  have "no_market_request w ?w1"
    by (rule no_market_request_eq) (simp add: next_random_keeps)
  then show "no_market_request w (snd (snd (questionLoop st w)))"
    using after_selection(2)[OF s] by (rule no_market_request_trans)
qed

text \<open>
  Claim C8. Every cycle negates \<^verbatim>\<open>useDexScreenerNext\<close> and does so exactly once, whatever
  its outcome. With the flag false the selection sends exactly one request, to CoinGecko,
  which is the first request of the cycle; if CoinGecko reports a symbol, the subject is
  one of its symbols and the store is not touched. With the flag true and a non-empty
  address under the store's cursor, the subject is that address, the cursor moves on, the
  selection sends no request, and the cycle sends none to a market-data endpoint. So of two
  cycles in a row that start from a false flag, the first asks CoinGecko first, and the
  second takes what the store has before anything is asked of CoinGecko.
\<close>

theorem flag_toggles_once_per_cycle:
  "useDexScreenerNext (fst (snd (questionLoop st w))) = (\<not> useDexScreenerNext st) \<and>
   count_list (fst (questionLoop st w)) Toggle = 1 \<and>
   (\<not> useDexScreenerNext st \<longrightarrow>
      requests (snd (snd (select_token st w))) = requests w @ [CoinGeckoGet] \<and>
      (\<exists>rs. requests (snd (snd (questionLoop st w))) = requests w @ CoinGeckoGet # rs) \<and>
      (fst (getTrendingCoinGeckoSymbols w) \<noteq> [] \<longrightarrow>
         tokenStoreService (fst (snd (questionLoop st w))) = tokenStoreService st \<and>
         (\<exists>i<length (fst (getTrendingCoinGeckoSymbols w)).
            fst (fst (select_token st w))
              = Some \<lparr>token_identifier = fst (getTrendingCoinGeckoSymbols w) ! i,
                       identifier_type = ticker\<rparr>))) \<and>
   (useDexScreenerNext st \<and>
    fst (getNextContractAddress (tokenStoreService st)) = Some a \<and> a \<noteq> [] \<longrightarrow>
      fst (fst (select_token st w)) = Some \<lparr>token_identifier = a, identifier_type = address\<rparr> \<and>
      snd (select_token st w)
        = (st\<lparr>tokenStoreService := snd (getNextContractAddress (tokenStoreService st))\<rparr>, w) \<and>
      tokenStoreService (fst (snd (questionLoop st w)))
        = snd (getNextContractAddress (tokenStoreService st)) \<and>
      no_market_request w (snd (snd (questionLoop st w)))) \<and>
   (\<not> useDexScreenerNext st \<and>
    truthy (fst (getNextContractAddress (tokenStoreService (fst (snd (questionLoop st w)))))) \<longrightarrow>
      tokenStoreService
        (fst (snd (questionLoop (fst (snd (questionLoop st w))) (snd (snd (questionLoop st w))))))
        = snd (getNextContractAddress (tokenStoreService (fst (snd (questionLoop st w))))) \<and>
      no_market_request (snd (snd (questionLoop st w)))
        (snd (snd (questionLoop (fst (snd (questionLoop st w))) (snd (snd (questionLoop st w)))))))"
proof -
  let ?q1 = "questionLoop st w"
  have 1: "?q1 = (fst ?q1, fst (snd ?q1), snd (snd ?q1))" by simp
  note a = questionLoop_result[OF 1]
  have A: "useDexScreenerNext (fst (snd ?q1)) = (\<not> useDexScreenerNext st)" by (rule a(1))
  have B: "count_list (fst ?q1) Toggle = 1" by (rule a(4))
  have C: "\<not> useDexScreenerNext st \<longrightarrow>
      requests (snd (snd (select_token st w))) = requests w @ [CoinGeckoGet] \<and>
      (\<exists>rs. requests (snd (snd ?q1)) = requests w @ CoinGeckoGet # rs) \<and>
      (fst (getTrendingCoinGeckoSymbols w) \<noteq> [] \<longrightarrow>
         tokenStoreService (fst (snd ?q1)) = tokenStoreService st \<and>
         (\<exists>i<length (fst (getTrendingCoinGeckoSymbols w)).
            fst (fst (select_token st w))
              = Some \<lparr>token_identifier = fst (getTrendingCoinGeckoSymbols w) ! i,
                       identifier_type = ticker\<rparr>))"
    using select_token_coingecko_first[of st w] cycle_coingecko_first[of st w] by blast
  have D: "useDexScreenerNext st \<and>
    fst (getNextContractAddress (tokenStoreService st)) = Some a \<and> a \<noteq> [] \<longrightarrow>
      fst (fst (select_token st w)) = Some \<lparr>token_identifier = a, identifier_type = address\<rparr> \<and>
      snd (select_token st w)
        = (st\<lparr>tokenStoreService := snd (getNextContractAddress (tokenStoreService st))\<rparr>, w) \<and>
      tokenStoreService (fst (snd ?q1)) = snd (getNextContractAddress (tokenStoreService st)) \<and>
      no_market_request w (snd (snd ?q1))"
  proof (intro impI, elim conjE)
    assume f: "useDexScreenerNext st"
      and g: "fst (getNextContractAddress (tokenStoreService st)) = Some a" and n: "a \<noteq> []"
    have tr: "truthy (fst (getNextContractAddress (tokenStoreService st)))" using g n by simp
    show "fst (fst (select_token st w)) = Some \<lparr>token_identifier = a, identifier_type = address\<rparr> \<and>
      snd (select_token st w)
        = (st\<lparr>tokenStoreService := snd (getNextContractAddress (tokenStoreService st))\<rparr>, w) \<and>
      tokenStoreService (fst (snd ?q1)) = snd (getNextContractAddress (tokenStoreService st)) \<and>
      no_market_request w (snd (snd ?q1))"
      using select_token_store_first[OF f g n, of w] cycle_store_first[OF f tr, of w] by simp
  qed
  have E: "\<not> useDexScreenerNext st \<and>
    truthy (fst (getNextContractAddress (tokenStoreService (fst (snd ?q1))))) \<longrightarrow>
      tokenStoreService (fst (snd (questionLoop (fst (snd ?q1)) (snd (snd ?q1)))))
        = snd (getNextContractAddress (tokenStoreService (fst (snd ?q1)))) \<and>
      no_market_request (snd (snd ?q1))
        (snd (snd (questionLoop (fst (snd ?q1)) (snd (snd ?q1)))))"
    using A cycle_store_first[of "fst (snd ?q1)" "snd (snd ?q1)"] by simp
  show ?thesis using A B C D E by (intro conjI)
qed

lemma toUpperCase_btc: "toUpperCase ''btc'' = ''BTC''"
  by code_simp

lemma stocked_cycles:
  "fst (getTrendingCoinGeckoSymbols trending_world) = [''BTC'']"
  "requests (snd (snd (questionLoop stocked_scheduler trending_world))) = [CoinGeckoGet]"
  "tokenStoreService (fst (snd (questionLoop stocked_scheduler trending_world)))
     = \<lparr>contractAddresses = [''0xabc''], currentIndex = 0\<rparr>"
  by (simp_all add: questionLoop_def try_block_def select_token_def pick_symbol_def
        getTrendingCoinGeckoSymbols_def fetch_coingecko_def toUpperCase_btc random_index_def
        getFormattedQuestion_def next_random_def stocked_scheduler_def idle_scheduler_def
        trending_world_def quiet_world_def http_ok_def new_TokenStoreService_def log_line_def
        Let_def)

text \<open>
  A first cycle that takes the symbol CoinGecko reports and leaves the store alone, and
  a second cycle that takes the stored address and sends nothing.
\<close>

theorem flag_toggles_once_per_cycle_witness:
  "\<not> useDexScreenerNext stocked_scheduler \<and>
   fst (getTrendingCoinGeckoSymbols trending_world) = [''BTC''] \<and>
   requests (snd (snd (questionLoop stocked_scheduler trending_world))) = [CoinGeckoGet] \<and>
   tokenStoreService (fst (snd (questionLoop stocked_scheduler trending_world)))
     = tokenStoreService stocked_scheduler \<and>
   useDexScreenerNext (fst (snd (questionLoop stocked_scheduler trending_world))) \<and>
   fst (getNextContractAddress
          (tokenStoreService (fst (snd (questionLoop stocked_scheduler trending_world)))))
     = Some ''0xabc'' \<and>
   tokenStoreService
     (fst (snd (questionLoop (fst (snd (questionLoop stocked_scheduler trending_world)))
                  (snd (snd (questionLoop stocked_scheduler trending_world))))))
     = \<lparr>contractAddresses = [''0xabc''], currentIndex = 1\<rparr> \<and>
   no_market_request (snd (snd (questionLoop stocked_scheduler trending_world)))
     (snd (snd (questionLoop (fst (snd (questionLoop stocked_scheduler trending_world)))
                  (snd (snd (questionLoop stocked_scheduler trending_world))))))"
proof -
  let ?q1 = "questionLoop stocked_scheduler trending_world"
  note T = flag_toggles_once_per_cycle[of stocked_scheduler trending_world]
  have f: "\<not> useDexScreenerNext stocked_scheduler"
    by (simp add: stocked_scheduler_def idle_scheduler_def)
  have s0: "tokenStoreService stocked_scheduler
              = \<lparr>contractAddresses = [''0xabc''], currentIndex = 0\<rparr>"
    by (simp add: stocked_scheduler_def idle_scheduler_def)
  have fl: "useDexScreenerNext (fst (snd ?q1))"
    using T[THEN conjunct1] f by simp
  have g: "fst (getNextContractAddress (tokenStoreService (fst (snd ?q1)))) = Some ''0xabc''"
    "snd (getNextContractAddress (tokenStoreService (fst (snd ?q1))))
       = \<lparr>contractAddresses = [''0xabc''], currentIndex = 1\<rparr>"
    by (simp_all add: stocked_cycles(3) getNextContractAddress_def)
  have tr: "truthy (fst (getNextContractAddress (tokenStoreService (fst (snd ?q1)))))"
    by (simp add: g(1))
  have E: "tokenStoreService (fst (snd (questionLoop (fst (snd ?q1)) (snd (snd ?q1)))))
        = snd (getNextContractAddress (tokenStoreService (fst (snd ?q1)))) \<and>
      no_market_request (snd (snd ?q1))
        (snd (snd (questionLoop (fst (snd ?q1)) (snd (snd ?q1)))))"
    using T[THEN conjunct2, THEN conjunct2, THEN conjunct2, THEN conjunct2] f tr by blast
  show ?thesis
    using f stocked_cycles s0 fl g E by simp
qed

section \<open>Properties of startup\<close>

lemma invalid_interval_iff:
  "invalid_interval a b \<longleftrightarrow> \<not> (js_less (Num 0) a \<and> js_less a b)"
  by (cases a; cases b) (auto simp: invalid_interval_def isNaN_def)

lemma main_invalid_interval:
  assumes "invalid_interval (deltaTMinMinutes su) (deltaTMaxMinutes su)"
  shows "\<exists>m. main su w
           = (Inl 1, log_line FATAL m (log_line INFO ''Starting AIR3 Twitch Crypto Bro Bot...'' w))"
  using assms by (cases "loaded_config su") (auto simp: main_def Let_def)

text \<open>
  Claim C9. Unless the minimum that \<^verbatim>\<open>parseInt\<close> returned is greater than 0 and less than
  the maximum it returned (which fails whenever either is \<^verbatim>\<open>NaN\<close>), \<^verbatim>\<open>main\<close> exits with
  code 1 after a fatal log line, without a request sent, and no cycle runs however long
  the event loop is observed. The test stands once in \<^verbatim>\<open>main\<close> and nowhere in the loop.
\<close>

theorem invalid_interval_aborts_startup:
  assumes "\<not> (js_less (Num 0) (deltaTMinMinutes su) \<and>
              js_less (deltaTMinMinutes su) (deltaTMaxMinutes su))"
  shows "\<exists>w'. program n su w = (Inl 1, [], w') \<and>
           requests w' = requests w \<and>
           (\<exists>m. last (logged w') = (FATAL, m))"
proof -
  have "invalid_interval (deltaTMinMinutes su) (deltaTMaxMinutes su)"
    using assms by (simp only: invalid_interval_iff not_False_eq_True)
  then obtain m where "main su w
           = (Inl 1, log_line FATAL m (log_line INFO ''Starting AIR3 Twitch Crypto Bro Bot...'' w))"
    using main_invalid_interval by blast
  then show ?thesis by (simp add: program_def log_line_def)
qed

text \<open>
  A minimum that is no number, a minimum equal to the maximum, and two bounds that differ
  as written but not as numbers.
\<close>

theorem invalid_interval_aborts_startup_witness:
  "deltaTMinMinutes unparsable_startup = NaN \<and>
   fst (program 3 unparsable_startup quiet_world) = Inl 1 \<and>
   fst (snd (program 3 unparsable_startup quiet_world)) = [] \<and>
   requests (snd (snd (program 3 unparsable_startup quiet_world))) = [] \<and>
   deltaTMinMinutes inverted_startup = Num 60 \<and>
   deltaTMaxMinutes inverted_startup = Num 60 \<and>
   fst (program 3 inverted_startup quiet_world) = Inl 1 \<and>
   deltaTMinMinutes rounded_startup = deltaTMaxMinutes rounded_startup \<and>
   fst (program 3 rounded_startup quiet_world) = Inl 1"
proof -
  have u: "deltaTMinMinutes unparsable_startup = NaN"
    by (simp add: unparsable_startup_def default_startup_def)
  have i: "deltaTMinMinutes inverted_startup = Num 60"
    "deltaTMaxMinutes inverted_startup = Num 60"
    by (simp_all add: inverted_startup_def default_startup_def)
  have r: "deltaTMinMinutes rounded_startup = Num 9007199254740992"
    "deltaTMaxMinutes rounded_startup = Num 9007199254740992"
    by (simp_all add: rounded_startup_def default_startup_def)
  have q: "requests quiet_world = []" by (simp add: quiet_world_def)
  have hu: "\<not> (js_less (Num 0) (deltaTMinMinutes unparsable_startup) \<and>
              js_less (deltaTMinMinutes unparsable_startup) (deltaTMaxMinutes unparsable_startup))"
    by (simp add: u)
  have hi: "\<not> (js_less (Num 0) (deltaTMinMinutes inverted_startup) \<and>
              js_less (deltaTMinMinutes inverted_startup) (deltaTMaxMinutes inverted_startup))"
    by (simp add: i)
  have hr: "\<not> (js_less (Num 0) (deltaTMinMinutes rounded_startup) \<and>
              js_less (deltaTMinMinutes rounded_startup) (deltaTMaxMinutes rounded_startup))"
    by (simp add: r)
  from invalid_interval_aborts_startup[OF hu, of 3 quiet_world]
  obtain w' where a: "program 3 unparsable_startup quiet_world = (Inl 1, [], w')"
    "requests w' = requests quiet_world" by blast
  from invalid_interval_aborts_startup[OF hi, of 3 quiet_world]
  obtain w'' where b: "program 3 inverted_startup quiet_world = (Inl 1, [], w'')" by blast
  from invalid_interval_aborts_startup[OF hr, of 3 quiet_world]
  obtain w3 where c: "program 3 rounded_startup quiet_world = (Inl 1, [], w3)" by blast
  show ?thesis using u i r a b c q by simp
qed

text \<open>With the default bounds and two bots whose tokens are confirmed, \<^verbatim>\<open>main\<close> does not exit.\<close>

lemma startup_example:
  "\<not> isl (fst (main default_startup
                  (quiet_world\<lparr>validate_endpoint :=
                                  [http_ok \<lparr>user_id = ''42''\<rparr>, http_ok \<lparr>user_id = ''42''\<rparr>]\<rparr>)))"
  "map (\<lambda>b. userId b)
     (case fst (main default_startup
                  (quiet_world\<lparr>validate_endpoint :=
                                  [http_ok \<lparr>user_id = ''42''\<rparr>, http_ok \<lparr>user_id = ''42''\<rparr>]\<rparr>)) of
        Inr st \<Rightarrow> bots st | Inl code \<Rightarrow> []) = [''42'', ''42'']"
  by (simp_all add: main_def default_startup_def raw_bot_def twitchBotConfigSchema_parse_def
        invalid_interval_def isNaN_def start_bot_def start_def ensureToken_def validateToken_def
        validate_try_def validated_def fetch_validate_def new_TwitchClient_def
        refreshDexScreenerTokens_def getTopBoostedDexScreenerAddresses_def fetch_dexscreener_def
        loadPersistedAddresses_def loadPersistedAddresses_with_def new_TokenStoreService_def
        quiet_world_def http_ok_def log_line_def Let_def)

end
